theory Spec2Isabelle
  imports Complex_Main "HOL-Library.Sublist"
begin

section \<open>Watchtower dashboard: the alert poller and its HTTP handlers\<close>

text \<open>
  The development embeds \<^verbatim>\<open>src/backend/python/dashboard.py\<close>: the background function
  \<^verbatim>\<open>check_alerts\<close> and the handlers \<^verbatim>\<open>api_latest\<close>, \<^verbatim>\<open>api_alerts\<close> and
  \<^verbatim>\<open>api_alerts_config\<close>. The module keeps two globals, the dictionary
  \<^verbatim>\<open>ALERT_THRESHOLDS\<close> and the list \<^verbatim>\<open>active_alerts\<close>; every function below takes
  them in a state record and returns the record updated.
\<close>

subsection \<open>Python values decoded from JSON\<close>

text \<open>
  \<^verbatim>\<open>response.json()\<close> and \<^verbatim>\<open>request.json\<close> yield \<^verbatim>\<open>None\<close>, \<^verbatim>\<open>bool\<close>, \<^verbatim>\<open>int\<close>,
  \<^verbatim>\<open>float\<close>, \<^verbatim>\<open>str\<close>, \<^verbatim>\<open>list\<close> and \<^verbatim>\<open>dict\<close> values. Python compares \<^verbatim>\<open>int\<close>
  and \<^verbatim>\<open>float\<close> by their exact numeric value and the program does no arithmetic on them,
  so a number is the rational it denotes (the literals \<^verbatim>\<open>NaN\<close> and \<^verbatim>\<open>Infinity\<close>, which
  are not JSON, are left out). A string is its list of UTF-8 bytes, whose lexicographic
  order is the order of the code points. A dictionary is the list of its items in
  insertion order; a dictionary built by Python has pairwise different keys.
\<close>

datatype json =
    JNull
  | JBool bool
  | JNum rat
  | JStr string
  | JArr "json list"
  | JObj "(string \<times> json) list"

text \<open>
  The exceptions the modelled statements can raise, each with the text \<^verbatim>\<open>str(e)\<close> gives.
  \<^verbatim>\<open>RequestException\<close> stands for what \<^verbatim>\<open>requests.get\<close> raises (timeout, connection
  error); \<^verbatim>\<open>JSONDecodeError\<close> for what \<^verbatim>\<open>response.json()\<close> raises on a body that is
  not JSON. The texts of these two are produced by the libraries and come with the
  outcome of the request. All of them are subclasses of \<^verbatim>\<open>Exception\<close>.
\<close>

datatype exn =
    RequestException string
  | JSONDecodeError string
  | KeyError string
  | TypeError string
  | AttributeError string

fun str_exn :: "exn \<Rightarrow> string" where
  "str_exn (RequestException m) = m"
| "str_exn (JSONDecodeError m) = m"
| "str_exn (KeyError k) = [CHR 0x27] @ k @ [CHR 0x27]"
| "str_exn (TypeError m) = m"
| "str_exn (AttributeError m) = m"

text \<open>\<^verbatim>\<open>d[k]\<close> on a dictionary: the value stored under \<open>k\<close>, or \<^verbatim>\<open>KeyError\<close>.\<close>

definition dict_getitem :: "(string \<times> json) list \<Rightarrow> string \<Rightarrow> exn + json" where
  "dict_getitem d k = (case map_of d k of None \<Rightarrow> Inl (KeyError k) | Some v \<Rightarrow> Inr v)"

text \<open>
  \<^verbatim>\<open>x[k]\<close> with a string key on any decoded value: only a dictionary can be subscripted
  by a string; a list or a string wants integer indices and the other values are not
  subscriptable, all of which is a \<^verbatim>\<open>TypeError\<close>.
\<close>

fun py_getitem :: "json \<Rightarrow> string \<Rightarrow> exn + json" where
  "py_getitem (JObj d) k = dict_getitem d k"
| "py_getitem (JArr xs) k = Inl (TypeError ''list indices must be integers or slices, not str'')"
| "py_getitem (JStr s) k = Inl (TypeError ''string indices must be integers'')"
| "py_getitem v k = Inl (TypeError ''object is not subscriptable'')"

text \<open>\<^verbatim>\<open>x.items()\<close>: only a dictionary has the method.\<close>

fun py_items :: "json \<Rightarrow> exn + (string \<times> json) list" where
  "py_items (JObj d) = Inr d"
| "py_items v = Inl (AttributeError ''object has no attribute items'')"

text \<open>
  \<^verbatim>\<open>d[k] = v\<close> keeps the position of a key that is present and appends a new key;
  \<^verbatim>\<open>d.update(other)\<close> performs it for every item of \<^verbatim>\<open>other\<close> in order.
\<close>

fun dict_setitem :: "string \<Rightarrow> json \<Rightarrow> (string \<times> json) list \<Rightarrow> (string \<times> json) list" where
  "dict_setitem k v [] = [(k, v)]"
| "dict_setitem k v ((k', v') # d) =
     (if k' = k then (k, v) # d else (k', v') # dict_setitem k v d)"

definition dict_update :: "(string \<times> json) list \<Rightarrow> (string \<times> json) list \<Rightarrow> (string \<times> json) list" where
  "dict_update d other = fold (\<lambda>(k, v) acc. dict_setitem k v acc) other d"

subsection \<open>Comparison of Python values\<close>

text \<open>\<^verbatim>\<open>bool\<close> is a subclass of \<^verbatim>\<open>int\<close>: \<^verbatim>\<open>True\<close> is 1 and \<^verbatim>\<open>False\<close> is 0.\<close>

fun py_num :: "json \<Rightarrow> rat option" where
  "py_num (JNum r) = Some r"
| "py_num (JBool b) = Some (if b then 1 else 0)"
| "py_num v = None"

fun str_gt :: "string \<Rightarrow> string \<Rightarrow> bool" where
  "str_gt [] t = False"
| "str_gt (c # s) [] = True"
| "str_gt (c # s) (c' # t) =
     (if c = c' then str_gt s t else (of_char c' :: nat) < of_char c)"

text \<open>
  \<^verbatim>\<open>x == y\<close>: numbers by value, strings and \<^verbatim>\<open>None\<close> by identity of content, lists
  element by element, dictionaries when they have the same number of keys and every
  key of the left one is in the right one with an equal value.
\<close>

fun py_eq :: "json \<Rightarrow> json \<Rightarrow> bool"
  and py_eq_list :: "json list \<Rightarrow> json list \<Rightarrow> bool"
  and py_eq_items :: "(string \<times> json) list \<Rightarrow> (string \<times> json) list \<Rightarrow> bool" where
  "py_eq JNull y = (y = JNull)"
| "py_eq (JBool b) y = (py_num y = Some (if b then 1 else 0))"
| "py_eq (JNum r) y = (py_num y = Some r)"
| "py_eq (JStr s) y = (y = JStr s)"
| "py_eq (JArr xs) (JArr ys) = py_eq_list xs ys"
| "py_eq (JArr xs) y = False"
| "py_eq (JObj d) (JObj d') = (length d = length d' \<and> py_eq_items d d')"
| "py_eq (JObj d) y = False"
| "py_eq_list [] ys = (ys = [])"
| "py_eq_list (x # xs) [] = False"
| "py_eq_list (x # xs) (y # ys) = (py_eq x y \<and> py_eq_list xs ys)"
| "py_eq_items [] d' = True"
| "py_eq_items ((k, v) # d) d' =
     (case map_of d' k of None \<Rightarrow> False | Some w \<Rightarrow> py_eq v w \<and> py_eq_items d d')"

text \<open>
  \<^verbatim>\<open>x > y\<close>: numbers by value, strings and lists lexicographically (a list comparison
  looks for the first position where the elements are not equal and compares there,
  or compares the lengths); every other pairing raises \<^verbatim>\<open>TypeError\<close>.
\<close>

fun py_gt :: "json \<Rightarrow> json \<Rightarrow> exn + bool"
  and py_gt_list :: "json list \<Rightarrow> json list \<Rightarrow> exn + bool" where
  "py_gt (JStr s) (JStr t) = Inr (str_gt s t)"
| "py_gt (JArr xs) (JArr ys) = py_gt_list xs ys"
| "py_gt (JArr xs) y = Inl (TypeError ''> not supported between instances'')"
| "py_gt x y =
     (case (py_num x, py_num y) of
        (Some a, Some b) \<Rightarrow> Inr (b < a)
      | _ \<Rightarrow> Inl (TypeError ''> not supported between instances''))"
| "py_gt_list [] ys = Inr False"
| "py_gt_list (x # xs) [] = Inr True"
| "py_gt_list (x # xs) (y # ys) = (if py_eq x y then py_gt_list xs ys else py_gt x y)"

subsection \<open>Program state and environment\<close>

text \<open>
  An alert is the dictionary \<^verbatim>\<open>check_alerts\<close> appends, with its five fixed keys
  \<^verbatim>\<open>hostname\<close>, \<^verbatim>\<open>type\<close>, \<^verbatim>\<open>value\<close>, \<^verbatim>\<open>threshold\<close> and \<^verbatim>\<open>timestamp\<close>.
\<close>

record alert =
  hostname :: string
  type :: string
  "value" :: json
  threshold :: json
  timestamp :: string

text \<open>
  The state holds the two module globals and what the program has done to the outside:
  the lines written by \<^verbatim>\<open>print\<close>, the number of \<^verbatim>\<open>requests.get\<close> calls to
  \<^verbatim>\<open>GO_SERVER_URL/latest\<close> and the number of \<^verbatim>\<open>datetime.now()\<close> calls made so far.
\<close>

record state =
  ALERT_THRESHOLDS :: "(string \<times> json) list"
  active_alerts :: "alert list"
  stdout :: "string list"
  requests_sent :: nat
  now_calls :: nat

text \<open>
  What \<^verbatim>\<open>requests.get\<close> returns: the status code and what \<^verbatim>\<open>response.json()\<close>
  makes of the body, the decoded value or, for a body that is not JSON, the message of the
  exception the decoder raises (it names the position of the error, so it depends on the
  body).
\<close>

record response =
  status_code :: int
  body :: "string + json"

definition response_json :: "response \<Rightarrow> exn + json" where
  "response_json r =
     (case body r of
        Inl msg \<Rightarrow> Inl (JSONDecodeError msg)
      | Inr j \<Rightarrow> Inr j)"

text \<open>
  The environment: \<open>net i\<close> is the outcome of the \<open>i\<close>-th request to the metrics source
  (an exception, or a response), \<open>clock i\<close> the text of the \<open>i\<close>-th reading of
  \<^verbatim>\<open>datetime.now().isoformat()\<close>.
\<close>

type_synonym net = "nat \<Rightarrow> exn + response"
type_synonym clock = "nat \<Rightarrow> string"

definition requests_get :: "net \<Rightarrow> state \<Rightarrow> (exn + response) \<times> state" where
  "requests_get net s = (net (requests_sent s), s\<lparr>requests_sent := requests_sent s + 1\<rparr>)"

definition initial_thresholds :: "(string \<times> json) list" where
  "initial_thresholds = [(''cpu'', JNum 80), (''memory'', JNum 85), (''disk'', JNum 90)]"

definition initial_state :: state where
  "initial_state =
     \<lparr>ALERT_THRESHOLDS = initial_thresholds, active_alerts = [], stdout = [],
      requests_sent = 0, now_calls = 0\<rparr>"

subsection \<open>The poller: \<^verbatim>\<open>check_alerts\<close>\<close>

text \<open>
  One of the three \<^verbatim>\<open>if\<close> statements of the loop body, for the metric key \<open>mkey\<close>, the
  threshold key \<open>tkey\<close> and the label \<open>label\<close>:
  \<^verbatim>\<open>if metrics[mkey] > ALERT_THRESHOLDS[tkey]: active_alerts.append({...})\<close>.
  The left operand is evaluated first. An exception leaves the state as it was when the
  statement began; the exception that left the statement is the first component.
\<close>

definition check_metric ::
  "clock \<Rightarrow> string \<Rightarrow> json \<Rightarrow> string \<Rightarrow> string \<Rightarrow> string \<Rightarrow> state \<Rightarrow> exn option \<times> state" where
  "check_metric clock host metrics mkey tkey label s =
     (case py_getitem metrics mkey of
        Inl e \<Rightarrow> (Some e, s)
      | Inr v \<Rightarrow>
          (case dict_getitem (ALERT_THRESHOLDS s) tkey of
             Inl e \<Rightarrow> (Some e, s)
           | Inr t \<Rightarrow>
               (case py_gt v t of
                  Inl e \<Rightarrow> (Some e, s)
                | Inr b \<Rightarrow>
                    if b then
                      (None,
                       s\<lparr>active_alerts := active_alerts s @
                            [\<lparr>hostname = host, type = label, value = v, threshold = t,
                              timestamp = clock (now_calls s)\<rparr>],
                         now_calls := now_calls s + 1\<rparr>)
                    else (None, s))))"

text \<open>The body of the \<^verbatim>\<open>for\<close> loop: CPU, then memory, then disk.\<close>

definition check_host :: "clock \<Rightarrow> string \<times> json \<Rightarrow> state \<Rightarrow> exn option \<times> state" where
  "check_host clock item s =
     (case item of (host, metrics) \<Rightarrow>
        (case check_metric clock host metrics ''cpu_usage'' ''cpu'' ''CPU'' s of
           (Some e, s1) \<Rightarrow> (Some e, s1)
         | (None, s1) \<Rightarrow>
             (case check_metric clock host metrics ''memory_usage'' ''memory'' ''Memory'' s1 of
                (Some e, s2) \<Rightarrow> (Some e, s2)
              | (None, s2) \<Rightarrow>
                  check_metric clock host metrics ''disk_usage'' ''disk'' ''Disk'' s2)))"

text \<open>\<^verbatim>\<open>for hostname, metrics in latest_metrics.items()\<close>, left at the first exception.\<close>

fun check_hosts :: "clock \<Rightarrow> (string \<times> json) list \<Rightarrow> state \<Rightarrow> exn option \<times> state" where
  "check_hosts clock [] s = (None, s)"
| "check_hosts clock (item # items) s =
     (case check_host clock item s of
        (Some e, s') \<Rightarrow> (Some e, s')
      | (None, s') \<Rightarrow> check_hosts clock items s')"

text \<open>
  The block under \<^verbatim>\<open>with alerts_lock\<close>: \<^verbatim>\<open>active_alerts.clear()\<close> comes first, then
  \<^verbatim>\<open>latest_metrics.items()\<close> is evaluated and the loop runs.
\<close>

definition evaluate :: "clock \<Rightarrow> json \<Rightarrow> state \<Rightarrow> exn option \<times> state" where
  "evaluate clock latest_metrics s =
     (let s1 = s\<lparr>active_alerts := []\<rparr> in
      case py_items latest_metrics of
        Inl e \<Rightarrow> (Some e, s1)
      | Inr items \<Rightarrow> check_hosts clock items s1)"

text \<open>The body of the \<^verbatim>\<open>try\<close> statement. A status other than 200 skips the block.\<close>

definition check_alerts_try :: "net \<Rightarrow> clock \<Rightarrow> state \<Rightarrow> exn option \<times> state" where
  "check_alerts_try net clock s =
     (case requests_get net s of
        (Inl e, s1) \<Rightarrow> (Some e, s1)
      | (Inr resp, s1) \<Rightarrow>
          if status_code resp = 200 then
            (case response_json resp of
               Inl e \<Rightarrow> (Some e, s1)
             | Inr latest_metrics \<Rightarrow> evaluate clock latest_metrics s1)
          else (None, s1))"

text \<open>\<^verbatim>\<open>print(f"Error checking alerts: {e}")\<close>\<close>

definition print_error :: "exn \<Rightarrow> state \<Rightarrow> exn option \<times> state" where
  "print_error e s = (None, s\<lparr>stdout := stdout s @ [''Error checking alerts: '' @ str_exn e]\<rparr>)"

text \<open>
  One pass through the \<^verbatim>\<open>while\<close> body: the \<^verbatim>\<open>try\<close> statement with its handler
  \<^verbatim>\<open>except Exception as e\<close>, which catches every exception of the model, followed by
  \<^verbatim>\<open>time.sleep(10)\<close>, which changes nothing in the state. The first component is the
  exception that leaves the body, if any.
\<close>

definition check_alerts_cycle :: "net \<Rightarrow> clock \<Rightarrow> state \<Rightarrow> exn option \<times> state" where
  "check_alerts_cycle net clock s =
     (case check_alerts_try net clock s of
        (Some e, s') \<Rightarrow> print_error e s'
      | (None, s') \<Rightarrow> (None, s'))"

text \<open>
  \<^verbatim>\<open>while True\<close> never returns, so \<open>check_alerts n\<close> is the loop observed after \<open>n\<close>
  passes: the state reached, or the exception that ended the thread before the
  \<open>n\<close>-th pass was over.
\<close>

fun check_alerts :: "nat \<Rightarrow> net \<Rightarrow> clock \<Rightarrow> state \<Rightarrow> exn option \<times> state" where
  "check_alerts 0 net clock s = (None, s)"
| "check_alerts (Suc n) net clock s =
     (case check_alerts_cycle net clock s of
        (Some e, s') \<Rightarrow> (Some e, s')
      | (None, s') \<Rightarrow> check_alerts n net clock s')"

subsection \<open>The HTTP handlers\<close>

text \<open>What a handler returns: the status and the value given to \<^verbatim>\<open>jsonify\<close>.\<close>

record reply =
  status :: int
  payload :: json

text \<open>
  \<^verbatim>\<open>api_latest\<close>: a request to the metrics source on every call; the decoded body is
  returned with status 200 whatever the status of the upstream response; any exception
  gives \<^verbatim>\<open>{'error': str(e)}\<close> with status 500.
\<close>

definition api_latest :: "net \<Rightarrow> state \<Rightarrow> reply \<times> state" where
  "api_latest net s =
     (case requests_get net s of
        (Inl e, s1) \<Rightarrow> (\<lparr>status = 500, payload = JObj [(''error'', JStr (str_exn e))]\<rparr>, s1)
      | (Inr resp, s1) \<Rightarrow>
          (case response_json resp of
             Inl e \<Rightarrow> (\<lparr>status = 500, payload = JObj [(''error'', JStr (str_exn e))]\<rparr>, s1)
           | Inr j \<Rightarrow> (\<lparr>status = 200, payload = j\<rparr>, s1)))"

text \<open>\<^verbatim>\<open>jsonify(active_alerts)\<close>: each alert dictionary as a JSON object.\<close>

definition alert_json :: "alert \<Rightarrow> json" where
  "alert_json a =
     JObj [(''hostname'', JStr (hostname a)), (''type'', JStr (type a)), (''value'', value a),
           (''threshold'', threshold a), (''timestamp'', JStr (timestamp a))]"

definition api_alerts :: "state \<Rightarrow> reply \<times> state" where
  "api_alerts s = (\<lparr>status = 200, payload = JArr (map alert_json (active_alerts s))\<rparr>, s)"

text \<open>
  \<^verbatim>\<open>api_alerts_config\<close>. The body of a POST, \<^verbatim>\<open>request.json\<close>, is taken to be a JSON
  object, given as its items; it goes to \<^verbatim>\<open>ALERT_THRESHOLDS.update\<close> as it is.
\<close>

datatype request = GET | POST "(string \<times> json) list"

fun api_alerts_config :: "request \<Rightarrow> state \<Rightarrow> reply \<times> state" where
  "api_alerts_config (POST new_thresholds) s =
     (let s' = s\<lparr>ALERT_THRESHOLDS := dict_update (ALERT_THRESHOLDS s) new_thresholds\<rparr> in
      (\<lparr>status = 200,
        payload = JObj [(''status'', JStr ''ok''), (''thresholds'', JObj (ALERT_THRESHOLDS s'))]\<rparr>,
       s'))"
| "api_alerts_config GET s = (\<lparr>status = 200, payload = JObj (ALERT_THRESHOLDS s)\<rparr>, s)"

subsection \<open>A cycle with configuration updates in between\<close>

text \<open>
  \<^verbatim>\<open>check_alerts\<close> holds \<^verbatim>\<open>alerts_lock\<close> while it walks the hosts, and reads
  \<^verbatim>\<open>ALERT_THRESHOLDS\<close> anew at every comparison. \<^verbatim>\<open>api_alerts_config\<close> runs in a
  request thread and takes no lock, so a POST can be handled while the loop is under way.
  \<open>run_steps\<close> is the loop of one cycle under such a schedule: the iterations of the
  \<^verbatim>\<open>for\<close> loop in their order, with the updates that the handler performs between two
  of them. An exception ends the loop, as in \<open>check_hosts\<close>.
\<close>

datatype step = Check "string \<times> json" | Update "(string \<times> json) list"

fun run_steps :: "clock \<Rightarrow> step list \<Rightarrow> state \<Rightarrow> exn option \<times> state" where
  "run_steps clock [] s = (None, s)"
| "run_steps clock (Check item # steps) s =
     (case check_host clock item s of
        (Some e, s') \<Rightarrow> (Some e, s')
      | (None, s') \<Rightarrow> run_steps clock steps s')"
| "run_steps clock (Update new_thresholds # steps) s =
     run_steps clock steps (snd (api_alerts_config (POST new_thresholds) s))"

subsection \<open>Notions used to state the properties\<close>

text \<open>
  The three metric kinds in the order the loop body examines them: the key in a host's
  metrics, the key in \<^verbatim>\<open>ALERT_THRESHOLDS\<close> and the \<^verbatim>\<open>type\<close> written into the alert.
\<close>

definition metric_kinds :: "(string \<times> string \<times> string) list" where
  "metric_kinds =
     [(''cpu_usage'', ''cpu'', ''CPU''), (''memory_usage'', ''memory'', ''Memory''),
      (''disk_usage'', ''disk'', ''Disk'')]"

text \<open>An alert without the time it was detected at.\<close>

definition without_timestamp :: "alert \<Rightarrow> string \<times> string \<times> json \<times> json" where
  "without_timestamp a = (hostname a, type a, value a, threshold a)"

text \<open>
  The violations as the specification describes them: for every host of the snapshot
  mapping, in its order, and every metric kind, in the order CPU, memory, disk, one
  entry when the observed value is strictly greater than the threshold.
\<close>

definition violation ::
  "(string \<times> json) list \<Rightarrow> string \<Rightarrow> json \<Rightarrow> string \<times> string \<times> string \<Rightarrow>
   (string \<times> string \<times> json \<times> json) list" where
  "violation th host metrics kind =
     (case kind of (mkey, tkey, label) \<Rightarrow>
        (case (py_getitem metrics mkey, dict_getitem th tkey) of
           (Inr v, Inr t) \<Rightarrow> if py_gt v t = Inr True then [(host, label, v, t)] else []
         | _ \<Rightarrow> []))"

definition host_violations ::
  "(string \<times> json) list \<Rightarrow> string \<times> json \<Rightarrow> (string \<times> string \<times> json \<times> json) list" where
  "host_violations th item =
     (case item of (host, metrics) \<Rightarrow> concat (map (violation th host metrics) metric_kinds))"

definition violations ::
  "(string \<times> json) list \<Rightarrow> (string \<times> json) list \<Rightarrow> (string \<times> string \<times> json \<times> json) list" where
  "violations th snapshot = concat (map (host_violations th) snapshot)"

text \<open>
  The data model of the specification: a metric snapshot has a number under each of the
  three usage keys, a snapshot mapping is a dictionary from host names to metric
  snapshots, a threshold set has a number for each of the three kinds.
\<close>

definition number_at :: "json \<Rightarrow> string \<Rightarrow> rat option" where
  "number_at x k = (case py_getitem x k of Inr (JNum r) \<Rightarrow> Some r | _ \<Rightarrow> None)"

definition is_metric_snapshot :: "json \<Rightarrow> bool" where
  "is_metric_snapshot m =
     (number_at m ''cpu_usage'' \<noteq> None \<and> number_at m ''memory_usage'' \<noteq> None \<and>
      number_at m ''disk_usage'' \<noteq> None)"

definition is_snapshot_mapping :: "(string \<times> json) list \<Rightarrow> bool" where
  "is_snapshot_mapping snapshot =
     (distinct (map fst snapshot) \<and> list_all (\<lambda>item. is_metric_snapshot (snd item)) snapshot)"

definition is_threshold_set :: "(string \<times> json) list \<Rightarrow> bool" where
  "is_threshold_set th =
     (number_at (JObj th) ''cpu'' \<noteq> None \<and> number_at (JObj th) ''memory'' \<noteq> None \<and>
      number_at (JObj th) ''disk'' \<noteq> None)"

text \<open>
  \<open>stamped clock s s'\<close>: from \<open>s\<close> to \<open>s'\<close> alerts were only appended, one clock reading
  was taken for each, and each carries its reading.
\<close>

definition stamped :: "clock \<Rightarrow> state \<Rightarrow> state \<Rightarrow> bool" where
  "stamped clock s s' =
     (\<exists>new. active_alerts s' = active_alerts s @ new \<and>
            now_calls s' = now_calls s + length new \<and>
            map timestamp new = map clock [now_calls s ..< now_calls s + length new])"

text \<open>
  \<open>host_group item g\<close>: the alerts \<open>g\<close> all name the host of \<open>item\<close> and their types
  appear in the order CPU, Memory, Disk, each at most once.
\<close>

definition host_group :: "string \<times> json \<Rightarrow> alert list \<Rightarrow> bool" where
  "host_group item g =
     ((\<forall>a\<in>set g. hostname a = fst item) \<and>
      subseq (map type g) [''CPU'', ''Memory'', ''Disk''])"

text \<open>
  The fetch of a cycle fails when \<^verbatim>\<open>requests.get\<close> raises, when the status is not 200
  or when the body is not JSON.
\<close>

definition fetch_fails :: "net \<Rightarrow> state \<Rightarrow> bool" where
  "fetch_fails net s =
     (case net (requests_sent s) of
        Inl e \<Rightarrow> True
      | Inr resp \<Rightarrow>
          status_code resp \<noteq> 200 \<or> (case body resp of Inl msg \<Rightarrow> True | Inr j \<Rightarrow> False))"

subsection \<open>Concrete inputs\<close>

definition host1_metrics :: json where
  "host1_metrics =
     JObj [(''cpu_usage'', JNum (185 / 2)), (''memory_usage'', JNum 50),
           (''disk_usage'', JNum 95), (''timestamp'', JNum 1700000000)]"

definition host1_snapshot :: "(string \<times> json) list" where
  "host1_snapshot = [(''host1'', host1_metrics)]"

definition host2_snapshot :: "(string \<times> json) list" where
  "host2_snapshot =
     [(''host2'', JObj [(''cpu_usage'', JNum 10), (''memory_usage'', JNum 20),
                        (''disk_usage'', JNum 30), (''timestamp'', JNum 1700000010)])]"

definition clock_morning :: clock where
  "clock_morning i = ''2024-01-01T08:00:00''"

definition clock_evening :: clock where
  "clock_evening i = ''2024-01-01T20:00:00''"

definition old_alert :: alert where
  "old_alert =
     \<lparr>hostname = ''host0'', type = ''CPU'', value = JNum 99, threshold = JNum 80,
      timestamp = ''2023-12-31T23:59:50''\<rparr>"

definition state_with_alert :: state where
  "state_with_alert = initial_state\<lparr>active_alerts := [old_alert]\<rparr>"

text \<open>
  Two hosts, in an order that is not the alphabetical one: zeta exceeds the CPU and disk
  thresholds, alpha the CPU and memory thresholds.
\<close>

definition zeta_metrics :: json where
  "zeta_metrics =
     JObj [(''cpu_usage'', JNum (185 / 2)), (''memory_usage'', JNum 50),
           (''disk_usage'', JNum 95), (''timestamp'', JNum 1700000000)]"

definition alpha_metrics :: json where
  "alpha_metrics =
     JObj [(''cpu_usage'', JNum 85), (''memory_usage'', JNum 99),
           (''disk_usage'', JNum 30), (''timestamp'', JNum 1700000000)]"

definition two_host_snapshot :: "(string \<times> json) list" where
  "two_host_snapshot = [(''zeta'', zeta_metrics), (''alpha'', alpha_metrics)]"

definition net_two_hosts :: net where
  "net_two_hosts i = Inr \<lparr>status_code = 200, body = Inr (JObj two_host_snapshot)\<rparr>"

text \<open>Two hosts with the same readings; only the CPU reading is high.\<close>

definition twin_metrics :: json where
  "twin_metrics =
     JObj [(''cpu_usage'', JNum (185 / 2)), (''memory_usage'', JNum 50),
           (''disk_usage'', JNum 50), (''timestamp'', JNum 1700000000)]"

definition twin_snapshot :: "(string \<times> json) list" where
  "twin_snapshot = [(''hostA'', twin_metrics), (''hostB'', twin_metrics)]"

text \<open>
  A cycle over the twins during which a request thread handles the POST of
  \<^verbatim>\<open>{"cpu": 90}\<close> after hostA has been checked and before hostB is.
\<close>

definition torn_schedule :: "step list" where
  "torn_schedule =
     [Check (''hostA'', twin_metrics), Update [(''cpu'', JNum 90)],
      Check (''hostB'', twin_metrics)]"

text \<open>The metrics source answers every request with the snapshot of host1.\<close>

definition net_host1 :: net where
  "net_host1 i = Inr \<lparr>status_code = 200, body = Inr (JObj host1_snapshot)\<rparr>"

text \<open>It answers the first request with host1 and every later one with host2.\<close>

definition net_host1_then_host2 :: net where
  "net_host1_then_host2 i =
     (if i = 0 then Inr \<lparr>status_code = 200, body = Inr (JObj host1_snapshot)\<rparr>
      else Inr \<lparr>status_code = 200, body = Inr (JObj host2_snapshot)\<rparr>)"

text \<open>It answers with a host whose metrics lack every usage key.\<close>

definition net_missing_keys :: net where
  "net_missing_keys i = Inr \<lparr>status_code = 200, body = Inr (JObj [(''host1'', JObj [])])\<rparr>"

text \<open>It answers with status 500.\<close>

definition net_server_error :: net where
  "net_server_error i =
     Inr \<lparr>status_code = 500, body = Inr (JObj [(''error'', JStr ''database is locked'')])\<rparr>"

text \<open>It answers with status 200 and a body that is not JSON.\<close>

definition net_not_json :: net where
  "net_not_json i =
     Inr \<lparr>status_code = 200, body = Inl ''Expecting value: line 1 column 1 (char 0)''\<rparr>"

text \<open>The connection times out.\<close>

definition net_timeout :: net where
  "net_timeout i = Inl (RequestException ''Read timed out. (read timeout=5)'')"

section \<open>Facts about the model\<close>

subsection \<open>One metric check\<close>

lemma check_metric_frame:
  assumes "check_metric clock h m mk tk lb s = (eo, s')"
  shows "ALERT_THRESHOLDS s' = ALERT_THRESHOLDS s \<and> stdout s' = stdout s \<and>
         requests_sent s' = requests_sent s"
  using assms by (auto simp: check_metric_def split: sum.splits if_splits)

lemma check_metric_None:
  assumes "check_metric clock h m mk tk lb s = (None, s')"
  shows "map without_timestamp (active_alerts s') =
         map without_timestamp (active_alerts s) @ violation (ALERT_THRESHOLDS s) h m (mk, tk, lb)"
  using assms
  by (auto simp: check_metric_def violation_def without_timestamp_def split: sum.splits if_splits)

lemma check_metric_stamped:
  assumes "check_metric clock h m mk tk lb s = (eo, s')"
  shows "stamped clock s s'"
  using assms by (auto simp: check_metric_def stamped_def split: sum.splits if_splits)

lemma check_metric_rel:
  assumes "check_metric c1 h m mk tk lb s1 = (e1, s1')"
    and "check_metric c2 h m mk tk lb s2 = (e2, s2')"
    and "ALERT_THRESHOLDS s1 = ALERT_THRESHOLDS s2"
    and "map without_timestamp (active_alerts s1) = map without_timestamp (active_alerts s2)"
  shows "e1 = e2 \<and> ALERT_THRESHOLDS s1' = ALERT_THRESHOLDS s2' \<and>
         map without_timestamp (active_alerts s1') = map without_timestamp (active_alerts s2')"
  using assms
  by (auto simp: check_metric_def without_timestamp_def split: sum.splits if_splits)

lemma check_metric_group:
  assumes "check_metric clock h m mk tk lb s = (eo, s')"
  shows "active_alerts s' = active_alerts s \<or>
         (\<exists>a. active_alerts s' = active_alerts s @ [a] \<and> hostname a = h \<and> type a = lb)"
  using assms by (auto simp: check_metric_def split: sum.splits if_splits)

lemma number_at_Some: "number_at x k = Some r \<longleftrightarrow> py_getitem x k = Inr (JNum r)"
  by (simp add: number_at_def split: sum.splits json.splits)

lemma check_metric_typed:
  assumes "number_at m mk \<noteq> None" and "number_at (JObj (ALERT_THRESHOLDS s)) tk \<noteq> None"
  shows "fst (check_metric clock h m mk tk lb s) = None"
proof -
  from assms obtain v t where v: "py_getitem m mk = Inr (JNum v)"
    and t: "dict_getitem (ALERT_THRESHOLDS s) tk = Inr (JNum t)"
    by (auto simp: number_at_Some)
  show ?thesis by (simp add: check_metric_def v t)
qed

subsection \<open>Appending with clock readings\<close>

lemma stamped_refl: "stamped clock s s"
  by (simp add: stamped_def)

lemma stamped_trans:
  assumes "stamped clock s s1" and "stamped clock s1 s2"
  shows "stamped clock s s2"
proof -
  from assms(1) obtain n1 where a1: "active_alerts s1 = active_alerts s @ n1"
    and c1: "now_calls s1 = now_calls s + length n1"
    and t1: "map timestamp n1 = map clock [now_calls s ..< now_calls s + length n1]"
    unfolding stamped_def by blast
  from assms(2) obtain n2 where a2: "active_alerts s2 = active_alerts s1 @ n2"
    and c2: "now_calls s2 = now_calls s1 + length n2"
    and t2: "map timestamp n2 = map clock [now_calls s1 ..< now_calls s1 + length n2]"
    unfolding stamped_def by blast
  have split: "[now_calls s ..< now_calls s + length (n1 @ n2)] =
        [now_calls s ..< now_calls s + length n1] @
        [now_calls s + length n1 ..< now_calls s + length n1 + length n2]"
    using upt_add_eq_append[of "now_calls s" "now_calls s + length n1" "length n2"]
    by (simp add: add.assoc)
  have "map timestamp (n1 @ n2) = map timestamp n1 @ map timestamp n2" by simp
  also have "\<dots> = map clock [now_calls s ..< now_calls s + length n1] @
      map clock [now_calls s + length n1 ..< now_calls s + length n1 + length n2]"
    unfolding t1 t2 c1 ..
  also have "\<dots> = map clock [now_calls s ..< now_calls s + length (n1 @ n2)]"
    unfolding split by simp
  finally have t: "map timestamp (n1 @ n2) = map clock [now_calls s ..< now_calls s + length (n1 @ n2)]" .
  have a: "active_alerts s2 = active_alerts s @ (n1 @ n2)" unfolding a2 a1 by simp
  have c: "now_calls s2 = now_calls s + length (n1 @ n2)" unfolding c2 c1 by simp
  show ?thesis unfolding stamped_def using a c t by blast
qed


subsection \<open>One host\<close>

lemma check_host_cases:
  assumes "check_host clock (h, m) s = (eo, s')"
  obtains
    (cpu) e where "check_metric clock h m ''cpu_usage'' ''cpu'' ''CPU'' s = (Some e, s')" "eo = Some e"
  | (memory) e s1 where "check_metric clock h m ''cpu_usage'' ''cpu'' ''CPU'' s = (None, s1)"
      "check_metric clock h m ''memory_usage'' ''memory'' ''Memory'' s1 = (Some e, s')" "eo = Some e"
  | (disk) s1 s2 where "check_metric clock h m ''cpu_usage'' ''cpu'' ''CPU'' s = (None, s1)"
      "check_metric clock h m ''memory_usage'' ''memory'' ''Memory'' s1 = (None, s2)"
      "check_metric clock h m ''disk_usage'' ''disk'' ''Disk'' s2 = (eo, s')"
  using assms
  by (auto simp: check_host_def split: prod.splits option.splits)

lemma check_host_frame:
  assumes "check_host clock item s = (eo, s')"
  shows "ALERT_THRESHOLDS s' = ALERT_THRESHOLDS s \<and> stdout s' = stdout s \<and>
         requests_sent s' = requests_sent s"
proof -
  obtain h m where item: "item = (h, m)" by (cases item)
  from assms[unfolded item] show ?thesis
  proof (cases rule: check_host_cases)
    case (cpu e)
    then show ?thesis using check_metric_frame by blast
  next
    case (memory e s1)
    then show ?thesis using check_metric_frame[OF memory(1)] check_metric_frame[OF memory(2)]
      by simp
  next
    case (disk s1 s2)
    then show ?thesis
      using check_metric_frame[OF disk(1)] check_metric_frame[OF disk(2)]
        check_metric_frame[OF disk(3)] by simp
  qed
qed

lemma check_host_None:
  assumes "check_host clock item s = (None, s')"
  shows "map without_timestamp (active_alerts s') =
         map without_timestamp (active_alerts s) @ host_violations (ALERT_THRESHOLDS s) item"
proof -
  obtain h m where item: "item = (h, m)" by (cases item)
  from assms[unfolded item] show ?thesis
  proof (cases rule: check_host_cases)
    case (disk s1 s2)
    have t1: "ALERT_THRESHOLDS s1 = ALERT_THRESHOLDS s"
      using check_metric_frame[OF disk(1)] by simp
    have t2: "ALERT_THRESHOLDS s2 = ALERT_THRESHOLDS s"
      using check_metric_frame[OF disk(2)] t1 by simp
    show ?thesis
      using check_metric_None[OF disk(1)] check_metric_None[OF disk(2)]
        check_metric_None[OF disk(3)] t1 t2
      by (simp add: host_violations_def metric_kinds_def item)
  qed simp_all
qed

lemma check_host_stamped:
  assumes "check_host clock item s = (eo, s')"
  shows "stamped clock s s'"
proof -
  obtain h m where item: "item = (h, m)" by (cases item)
  from assms[unfolded item] show ?thesis
  proof (cases rule: check_host_cases)
    case (cpu e)
    show ?thesis by (rule check_metric_stamped[OF cpu(1)])
  next
    case (memory e s1)
    show ?thesis
      by (rule stamped_trans[OF check_metric_stamped[OF memory(1)]
            check_metric_stamped[OF memory(2)]])
  next
    case (disk s1 s2)
    show ?thesis
      by (rule stamped_trans[OF stamped_trans[OF check_metric_stamped[OF disk(1)]
            check_metric_stamped[OF disk(2)]] check_metric_stamped[OF disk(3)]])
  qed
qed

lemma check_host_rel:
  assumes "check_host c1 item s1 = (e1, s1')"
    and "check_host c2 item s2 = (e2, s2')"
    and "ALERT_THRESHOLDS s1 = ALERT_THRESHOLDS s2"
    and "map without_timestamp (active_alerts s1) = map without_timestamp (active_alerts s2)"
  shows "e1 = e2 \<and> ALERT_THRESHOLDS s1' = ALERT_THRESHOLDS s2' \<and>
         map without_timestamp (active_alerts s1') = map without_timestamp (active_alerts s2')"
proof -
  obtain h m where item: "item = (h, m)" by (cases item)
  obtain a1 t1 where A: "check_metric c1 h m ''cpu_usage'' ''cpu'' ''CPU'' s1 = (a1, t1)"
    by (cases "check_metric c1 h m ''cpu_usage'' ''cpu'' ''CPU'' s1")
  obtain a2 t2 where B: "check_metric c2 h m ''cpu_usage'' ''cpu'' ''CPU'' s2 = (a2, t2)"
    by (cases "check_metric c2 h m ''cpu_usage'' ''cpu'' ''CPU'' s2")
  note AB = check_metric_rel[OF A B assms(3,4)]
  obtain b1 u1 where C: "check_metric c1 h m ''memory_usage'' ''memory'' ''Memory'' t1 = (b1, u1)"
    by (cases "check_metric c1 h m ''memory_usage'' ''memory'' ''Memory'' t1")
  obtain b2 u2 where D: "check_metric c2 h m ''memory_usage'' ''memory'' ''Memory'' t2 = (b2, u2)"
    by (cases "check_metric c2 h m ''memory_usage'' ''memory'' ''Memory'' t2")
  have CD: "b1 = b2 \<and> ALERT_THRESHOLDS u1 = ALERT_THRESHOLDS u2 \<and>
         map without_timestamp (active_alerts u1) = map without_timestamp (active_alerts u2)"
    using check_metric_rel[OF C D] AB by blast
  obtain d1 v1 where E: "check_metric c1 h m ''disk_usage'' ''disk'' ''Disk'' u1 = (d1, v1)"
    by (cases "check_metric c1 h m ''disk_usage'' ''disk'' ''Disk'' u1")
  obtain d2 v2 where F: "check_metric c2 h m ''disk_usage'' ''disk'' ''Disk'' u2 = (d2, v2)"
    by (cases "check_metric c2 h m ''disk_usage'' ''disk'' ''Disk'' u2")
  have EF: "d1 = d2 \<and> ALERT_THRESHOLDS v1 = ALERT_THRESHOLDS v2 \<and>
         map without_timestamp (active_alerts v1) = map without_timestamp (active_alerts v2)"
    using check_metric_rel[OF E F] CD by blast
  show ?thesis
    using assms(1,2) A B C D E F AB CD EF
    by (auto simp: check_host_def item split: option.splits)
qed

lemma check_host_group:
  assumes "check_host clock (h, m) s = (eo, s')"
  shows "\<exists>g. active_alerts s' = active_alerts s @ g \<and> (\<forall>a\<in>set g. hostname a = h) \<and>
             subseq (map type g) [''CPU'', ''Memory'', ''Disk'']"
proof -
  have step: "\<And>mk tk lb t t' e. check_metric clock h m mk tk lb t = (e, t') \<Longrightarrow>
     \<exists>g. active_alerts t' = active_alerts t @ g \<and> (\<forall>a\<in>set g. hostname a = h) \<and>
         subseq (map type g) [lb]"
  proof -
    fix mk tk lb t t' e
    assume "check_metric clock h m mk tk lb t = (e, t')"
    from check_metric_group[OF this] show "\<exists>g. active_alerts t' = active_alerts t @ g \<and> (\<forall>a\<in>set g. hostname a = h) \<and>
         subseq (map type g) [lb]"
    proof
      assume "active_alerts t' = active_alerts t"
      then have "active_alerts t' = active_alerts t @ [] \<and> (\<forall>a\<in>set []. hostname a = h) \<and>
         subseq (map type []) [lb]" by simp
      then show ?thesis by blast
    next
      assume "\<exists>a. active_alerts t' = active_alerts t @ [a] \<and> hostname a = h \<and> type a = lb"
      then obtain a where "active_alerts t' = active_alerts t @ [a]" "hostname a = h" "type a = lb"
        by blast
      then have "active_alerts t' = active_alerts t @ [a] \<and> (\<forall>x\<in>set [a]. hostname x = h) \<and>
         subseq (map type [a]) [lb]" by simp
      then show ?thesis by blast
    qed
  qed
  obtain a1 t1 where A: "check_metric clock h m ''cpu_usage'' ''cpu'' ''CPU'' s = (a1, t1)"
    by (cases "check_metric clock h m ''cpu_usage'' ''cpu'' ''CPU'' s")
  obtain a2 t2 where B: "check_metric clock h m ''memory_usage'' ''memory'' ''Memory'' t1 = (a2, t2)"
    by (cases "check_metric clock h m ''memory_usage'' ''memory'' ''Memory'' t1")
  obtain a3 t3 where C: "check_metric clock h m ''disk_usage'' ''disk'' ''Disk'' t2 = (a3, t3)"
    by (cases "check_metric clock h m ''disk_usage'' ''disk'' ''Disk'' t2")
  from step[OF A] obtain g1 where g1: "active_alerts t1 = active_alerts s @ g1"
    "\<forall>a\<in>set g1. hostname a = h" "subseq (map type g1) [''CPU'']" by blast
  from step[OF B] obtain g2 where g2: "active_alerts t2 = active_alerts t1 @ g2"
    "\<forall>a\<in>set g2. hostname a = h" "subseq (map type g2) [''Memory'']" by blast
  from step[OF C] obtain g3 where g3: "active_alerts t3 = active_alerts t2 @ g3"
    "\<forall>a\<in>set g3. hostname a = h" "subseq (map type g3) [''Disk'']" by blast
  have s12: "subseq (map type (g1 @ g2)) ([''CPU''] @ [''Memory''])"
    using g1(3) g2(3) by (simp only: map_append list_emb_append_mono)
  have s123: "subseq (map type (g1 @ g2 @ g3)) (([''CPU''] @ [''Memory'']) @ [''Disk''])"
    using s12 g3(3) list_emb_append_mono[of "(=)" "map type (g1 @ g2)" "[''CPU''] @ [''Memory'']" "map type g3" "[''Disk'']"]
    by simp
  have s1: "subseq (map type g1) [''CPU'', ''Memory'', ''Disk'']"
    using g1(3) by (auto intro: subseq_order.trans)
  have s2: "subseq (map type (g1 @ g2)) [''CPU'', ''Memory'', ''Disk'']"
    using s12 by (auto intro: subseq_order.trans)
  consider (c1) e where "a1 = Some e" "s' = t1"
    | (c2) e where "a1 = None" "a2 = Some e" "s' = t2"
    | (c3) "a1 = None" "a2 = None" "s' = t3"
    using assms A B C by (auto simp: check_host_def split: option.splits)
  then show ?thesis
  proof cases
    case c1
    with g1 s1 show ?thesis by blast
  next
    case c2
    have "active_alerts s' = active_alerts s @ (g1 @ g2)" using c2 g1 g2 by simp
    moreover have "\<forall>a\<in>set (g1 @ g2). hostname a = h" using g1 g2 by auto
    ultimately show ?thesis using s2 by blast
  next
    case c3
    have "active_alerts s' = active_alerts s @ (g1 @ g2 @ g3)" using c3 g1 g2 g3 by simp
    moreover have "\<forall>a\<in>set (g1 @ g2 @ g3). hostname a = h" using g1 g2 g3 by auto
    ultimately show ?thesis using s123 by (metis append_Cons append_Nil)
  qed
qed

lemma check_host_typed:
  assumes "is_metric_snapshot (snd item)" and "is_threshold_set (ALERT_THRESHOLDS s)"
  shows "fst (check_host clock item s) = None"
proof -
  obtain h m where item: "item = (h, m)" by (cases item)
  obtain s1 where 1: "check_metric clock h m ''cpu_usage'' ''cpu'' ''CPU'' s = (None, s1)"
    using check_metric_typed[of m "''cpu_usage''" s "''cpu''" clock h "''CPU''"] assms
    by (cases "check_metric clock h m ''cpu_usage'' ''cpu'' ''CPU'' s")
       (simp add: is_metric_snapshot_def is_threshold_set_def item)
  have t1: "ALERT_THRESHOLDS s1 = ALERT_THRESHOLDS s" using check_metric_frame[OF 1] by simp
  obtain s2 where 2: "check_metric clock h m ''memory_usage'' ''memory'' ''Memory'' s1 = (None, s2)"
    using check_metric_typed[of m "''memory_usage''" s1 "''memory''" clock h "''Memory''"] assms t1
    by (cases "check_metric clock h m ''memory_usage'' ''memory'' ''Memory'' s1")
       (simp add: is_metric_snapshot_def is_threshold_set_def item)
  have t2: "ALERT_THRESHOLDS s2 = ALERT_THRESHOLDS s" using check_metric_frame[OF 2] t1 by simp
  have 3: "fst (check_metric clock h m ''disk_usage'' ''disk'' ''Disk'' s2) = None"
    using check_metric_typed[of m "''disk_usage''" s2 "''disk''" clock h "''Disk''"] assms t2
    by (simp add: is_metric_snapshot_def is_threshold_set_def item)
  show ?thesis using 1 2 3 by (simp add: check_host_def item)
qed

subsection \<open>The loop over the hosts\<close>

lemma check_hosts_frame:
  assumes "check_hosts clock items s = (eo, s')"
  shows "ALERT_THRESHOLDS s' = ALERT_THRESHOLDS s \<and> stdout s' = stdout s \<and>
         requests_sent s' = requests_sent s"
  using assms
proof (induction items arbitrary: s)
  case Nil
  then show ?case by simp
next
  case (Cons item items)
  obtain e1 s1 where h: "check_host clock item s = (e1, s1)" by (cases "check_host clock item s")
  show ?case
  proof (cases e1)
    case None
    with Cons.prems h have "check_hosts clock items s1 = (eo, s')" by simp
    from Cons.IH[OF this] check_host_frame[OF h] show ?thesis by simp
  next
    case (Some e)
    with Cons.prems h have "s' = s1" by simp
    with check_host_frame[OF h] show ?thesis by simp
  qed
qed

lemma check_hosts_None:
  assumes "check_hosts clock items s = (None, s')"
  shows "map without_timestamp (active_alerts s') =
         map without_timestamp (active_alerts s) @ violations (ALERT_THRESHOLDS s) items"
  using assms
proof (induction items arbitrary: s)
  case Nil
  then show ?case by (simp add: violations_def)
next
  case (Cons item items)
  obtain e1 s1 where h: "check_host clock item s = (e1, s1)" by (cases "check_host clock item s")
  with Cons.prems have e1: "e1 = None" and r: "check_hosts clock items s1 = (None, s')"
    by (auto split: option.splits)
  from h e1 have h': "check_host clock item s = (None, s1)" by simp
  show ?case
    using Cons.IH[OF r] check_host_None[OF h'] check_host_frame[OF h]
    by (simp add: violations_def)
qed

lemma check_hosts_stamped:
  assumes "check_hosts clock items s = (eo, s')"
  shows "stamped clock s s'"
  using assms
proof (induction items arbitrary: s)
  case Nil
  then show ?case by (simp add: stamped_refl)
next
  case (Cons item items)
  obtain e1 s1 where h: "check_host clock item s = (e1, s1)" by (cases "check_host clock item s")
  show ?case
  proof (cases e1)
    case None
    with Cons.prems h have "check_hosts clock items s1 = (eo, s')" by simp
    from stamped_trans[OF check_host_stamped[OF h] Cons.IH[OF this]] show ?thesis .
  next
    case (Some e)
    with Cons.prems h have "s' = s1" by simp
    with check_host_stamped[OF h] show ?thesis by simp
  qed
qed

lemma check_hosts_rel:
  assumes "check_hosts c1 items s1 = (e1, s1')"
    and "check_hosts c2 items s2 = (e2, s2')"
    and "ALERT_THRESHOLDS s1 = ALERT_THRESHOLDS s2"
    and "map without_timestamp (active_alerts s1) = map without_timestamp (active_alerts s2)"
  shows "e1 = e2 \<and>
         map without_timestamp (active_alerts s1') = map without_timestamp (active_alerts s2')"
  using assms
proof (induction items arbitrary: s1 s2)
  case Nil
  then show ?case by simp
next
  case (Cons item items)
  obtain a1 t1 where A: "check_host c1 item s1 = (a1, t1)" by (cases "check_host c1 item s1")
  obtain a2 t2 where B: "check_host c2 item s2 = (a2, t2)" by (cases "check_host c2 item s2")
  note AB = check_host_rel[OF A B Cons.prems(3,4)]
  show ?case
  proof (cases a1)
    case None
    with AB have a2: "a2 = None" by simp
    from Cons.prems(1) A None have r1: "check_hosts c1 items t1 = (e1, s1')" by simp
    from Cons.prems(2) B a2 have r2: "check_hosts c2 items t2 = (e2, s2')" by simp
    from Cons.IH[OF r1 r2] AB show ?thesis by simp
  next
    case (Some e)
    with AB have a2: "a2 = Some e" by simp
    from Cons.prems(1) A Some have r1: "e1 = Some e" "s1' = t1" by simp_all
    from Cons.prems(2) B a2 have r2: "e2 = Some e" "s2' = t2" by simp_all
    from r1 r2 AB show ?thesis by simp
  qed
qed

lemma check_hosts_group:
  assumes "check_hosts clock items s = (None, s')"
  shows "\<exists>groups. active_alerts s' = active_alerts s @ concat groups \<and>
           list_all2 host_group items groups"
  using assms
proof (induction items arbitrary: s)
  case Nil
  then have "active_alerts s' = active_alerts s @ concat [] \<and> list_all2 host_group [] []"
    by simp
  then show ?case by (rule exI)
next
  case (Cons item items)
  obtain h m where item: "item = (h, m)" by (cases item)
  obtain e1 s1 where hh: "check_host clock (h, m) s = (e1, s1)"
    by (cases "check_host clock (h, m) s")
  with Cons.prems item have r: "check_hosts clock items s1 = (None, s')"
    by (auto split: option.splits)
  from check_host_group[OF hh] obtain g where g: "active_alerts s1 = active_alerts s @ g"
    and hg: "host_group item g"
    unfolding host_group_def item by auto
  from Cons.IH[OF r] obtain groups where gs: "active_alerts s' = active_alerts s1 @ concat groups"
    and l: "list_all2 host_group items groups"
    by blast
  have 1: "active_alerts s' = active_alerts s @ concat (g # groups)" using g gs by simp
  have 2: "list_all2 host_group (item # items) (g # groups)"
    using hg l by (simp only: list_all2_Cons)
  from 1 2 have "active_alerts s' = active_alerts s @ concat (g # groups) \<and>
     list_all2 host_group (item # items) (g # groups)" by (rule conjI)
  then show ?case by (rule exI)
qed

lemma check_hosts_typed:
  assumes "list_all (\<lambda>item. is_metric_snapshot (snd item)) items"
    and "is_threshold_set (ALERT_THRESHOLDS s)"
  shows "fst (check_hosts clock items s) = None"
  using assms
proof (induction items arbitrary: s)
  case Nil
  then show ?case by simp
next
  case (Cons item items)
  from Cons.prems have i: "is_metric_snapshot (snd item)" by simp
  obtain e1 s1 where h: "check_host clock item s = (e1, s1)" by (cases "check_host clock item s")
  from check_host_typed[OF i Cons.prems(2), of clock] h have e1: "e1 = None" by simp
  have "is_threshold_set (ALERT_THRESHOLDS s1)" using check_host_frame[OF h] Cons.prems(2) by simp
  from Cons.IH[OF _ this] Cons.prems(1) have "fst (check_hosts clock items s1) = None" by simp
  with h e1 show ?case by simp
qed

subsection \<open>Dictionary update\<close>

lemma map_of_dict_setitem: "map_of (dict_setitem k v d) = (map_of d)(k \<mapsto> v)"
  by (induction d) auto

lemma map_of_dict_update: "map_of (dict_update d other) = map_of d ++ map_of (rev other)"
  unfolding dict_update_def
proof (induction other arbitrary: d)
  case Nil
  show ?case by simp
next
  case (Cons item other)
  obtain k v where item: "item = (k, v)" by (cases item)
  have "map_of (fold (\<lambda>(k, v). dict_setitem k v) (item # other) d) =
        map_of (dict_setitem k v d) ++ map_of (rev other)"
    using Cons.IH[of "dict_setitem k v d"] by (simp add: item)
  also have "\<dots> = map_of d ++ map_of (rev (item # other))"
    by (simp add: map_of_dict_setitem item)
  finally show ?case .
qed

lemma dict_getitem_update_new:
  assumes "distinct (map fst other)" and "(k, v) \<in> set other"
  shows "dict_getitem (dict_update d other) k = Inr v"
proof -
  have "map_of (rev other) k = Some v"
    using assms by (simp add: distinct_rev rev_map[symmetric])
  then show ?thesis by (simp add: dict_getitem_def map_of_dict_update)
qed

lemma dict_getitem_update_old:
  assumes "k \<notin> fst ` set other"
  shows "dict_getitem (dict_update d other) k = dict_getitem d k"
proof -
  have "map_of (rev other) k = None"
    using assms by (simp add: map_of_eq_None_iff)
  then show ?thesis by (simp add: dict_getitem_def map_of_dict_update map_add_def)
qed

subsection \<open>The block under the lock\<close>

lemma evaluate_frame:
  assumes "evaluate clock latest_metrics s = (eo, s')"
  shows "ALERT_THRESHOLDS s' = ALERT_THRESHOLDS s \<and> stdout s' = stdout s \<and>
         requests_sent s' = requests_sent s"
proof (cases "py_items latest_metrics")
  case (Inl e)
  with assms show ?thesis by (auto simp: evaluate_def)
next
  case (Inr items)
  with assms have "check_hosts clock items (s\<lparr>active_alerts := []\<rparr>) = (eo, s')"
    by (simp add: evaluate_def)
  from check_hosts_frame[OF this] show ?thesis by simp
qed

lemma evaluate_violations:
  assumes "evaluate clock (JObj items) s = (None, s')"
  shows "map without_timestamp (active_alerts s') = violations (ALERT_THRESHOLDS s) items"
proof -
  from assms have "check_hosts clock items (s\<lparr>active_alerts := []\<rparr>) = (None, s')"
    by (simp add: evaluate_def)
  from check_hosts_None[OF this] show ?thesis by simp
qed

lemma evaluate_stamped:
  assumes "evaluate clock latest_metrics s = (eo, s')"
  shows "map timestamp (active_alerts s') =
         map clock [now_calls s ..< now_calls s + length (active_alerts s')] \<and>
         now_calls s' = now_calls s + length (active_alerts s')"
proof (cases "py_items latest_metrics")
  case (Inl e)
  with assms show ?thesis by (auto simp: evaluate_def)
next
  case (Inr items)
  with assms have "check_hosts clock items (s\<lparr>active_alerts := []\<rparr>) = (eo, s')"
    by (simp add: evaluate_def)
  from check_hosts_stamped[OF this] show ?thesis by (auto simp: stamped_def)
qed

lemma evaluate_rel:
  assumes "ALERT_THRESHOLDS s1 = ALERT_THRESHOLDS s2"
  shows "fst (evaluate c1 latest_metrics s1) = fst (evaluate c2 latest_metrics s2) \<and>
         map without_timestamp (active_alerts (snd (evaluate c1 latest_metrics s1))) =
         map without_timestamp (active_alerts (snd (evaluate c2 latest_metrics s2)))"
proof (cases "py_items latest_metrics")
  case (Inl e)
  then show ?thesis by (simp add: evaluate_def)
next
  case (Inr items)
  obtain e1 t1 where A: "check_hosts c1 items (s1\<lparr>active_alerts := []\<rparr>) = (e1, t1)"
    by (cases "check_hosts c1 items (s1\<lparr>active_alerts := []\<rparr>)")
  obtain e2 t2 where B: "check_hosts c2 items (s2\<lparr>active_alerts := []\<rparr>) = (e2, t2)"
    by (cases "check_hosts c2 items (s2\<lparr>active_alerts := []\<rparr>)")
  have "e1 = e2 \<and> map without_timestamp (active_alerts t1) = map without_timestamp (active_alerts t2)"
    by (rule check_hosts_rel[OF A B]) (simp_all add: assms)
  with A B Inr show ?thesis by (simp add: evaluate_def)
qed

lemma evaluate_host1:
  "ALERT_THRESHOLDS s = initial_thresholds \<Longrightarrow>
   evaluate clock (JObj host1_snapshot) s =
     (None,
      s\<lparr>active_alerts :=
          [\<lparr>hostname = ''host1'', type = ''CPU'', value = JNum (185 / 2), threshold = JNum 80,
            timestamp = clock (now_calls s)\<rparr>,
           \<lparr>hostname = ''host1'', type = ''Disk'', value = JNum 95, threshold = JNum 90,
            timestamp = clock (Suc (now_calls s))\<rparr>],
         now_calls := Suc (Suc (now_calls s))\<rparr>)"
  by (simp add: evaluate_def check_host_def check_metric_def initial_thresholds_def
      host1_snapshot_def host1_metrics_def dict_getitem_def)

subsection \<open>The violations of a snapshot\<close>

lemma violation_mem:
  "(h', lb', v, t) \<in> set (violation th h m (mk, tk, lb)) \<longleftrightarrow>
   h' = h \<and> lb' = lb \<and> py_getitem m mk = Inr v \<and> dict_getitem th tk = Inr t \<and>
   py_gt v t = Inr True"
  by (auto simp: violation_def split: sum.splits)

lemma host_violations_mem:
  "(h', lb, v, t) \<in> set (host_violations th (h, m)) \<longleftrightarrow>
   h' = h \<and> (\<exists>mk tk. (mk, tk, lb) \<in> set metric_kinds \<and> py_getitem m mk = Inr v \<and>
      dict_getitem th tk = Inr t \<and> py_gt v t = Inr True)"
  unfolding host_violations_def metric_kinds_def
  by (simp add: violation_mem) blast

lemma violations_mem:
  "(h, lb, v, t) \<in> set (violations th snapshot) \<longleftrightarrow>
   (\<exists>m mk tk. (h, m) \<in> set snapshot \<and> (mk, tk, lb) \<in> set metric_kinds \<and>
      py_getitem m mk = Inr v \<and> dict_getitem th tk = Inr t \<and> py_gt v t = Inr True)"
proof -
  have "(h, lb, v, t) \<in> set (violations th snapshot) \<longleftrightarrow>
        (\<exists>item\<in>set snapshot. (h, lb, v, t) \<in> set (host_violations th item))"
    by (simp add: violations_def)
  also have "\<dots> \<longleftrightarrow> (\<exists>h' m. (h', m) \<in> set snapshot \<and> (h, lb, v, t) \<in> set (host_violations th (h', m)))"
    by auto
  also have "\<dots> \<longleftrightarrow> (\<exists>m mk tk. (h, m) \<in> set snapshot \<and> (mk, tk, lb) \<in> set metric_kinds \<and>
      py_getitem m mk = Inr v \<and> dict_getitem th tk = Inr t \<and> py_gt v t = Inr True)"
    unfolding host_violations_mem by blast
  finally show ?thesis .
qed

lemma metric_kinds_label:
  assumes "(mk, tk, lb) \<in> set metric_kinds" and "(mk', tk', lb) \<in> set metric_kinds"
  shows "mk' = mk \<and> tk' = tk"
  using assms by (auto simp: metric_kinds_def)


lemma evaluate_typed:
  assumes "is_snapshot_mapping snapshot" and "is_threshold_set (ALERT_THRESHOLDS s)"
  shows "\<exists>s'. evaluate clock (JObj snapshot) s = (None, s')"
proof -
  have "fst (check_hosts clock snapshot (s\<lparr>active_alerts := []\<rparr>)) = None"
    by (rule check_hosts_typed) (use assms in \<open>simp_all add: is_snapshot_mapping_def\<close>)
  then show ?thesis
    by (cases "check_hosts clock snapshot (s\<lparr>active_alerts := []\<rparr>)") (simp add: evaluate_def)
qed

lemma violation_count:
  "length (filter (\<lambda>c. fst c = h \<and> fst (snd c) = lb) (violation th h' m (mk, tk, lb'))) \<le>
   (if h' = h \<and> lb' = lb then 1 else 0)"
  by (simp add: violation_def split: sum.splits)

lemma host_violations_count:
  "length (filter (\<lambda>c. fst c = h \<and> fst (snd c) = lb) (host_violations th (h', m))) \<le>
   (if h' = h then 1 else 0)"
proof -
  let ?P = "\<lambda>c::string \<times> string \<times> json \<times> json. fst c = h \<and> fst (snd c) = lb"
  have c: "length (filter ?P (violation th h' m (''cpu_usage'', ''cpu'', ''CPU''))) \<le>
      (if h' = h \<and> ''CPU'' = lb then 1 else 0)" by (rule violation_count)
  have me: "length (filter ?P (violation th h' m (''memory_usage'', ''memory'', ''Memory''))) \<le>
      (if h' = h \<and> ''Memory'' = lb then 1 else 0)" by (rule violation_count)
  have d: "length (filter ?P (violation th h' m (''disk_usage'', ''disk'', ''Disk''))) \<le>
      (if h' = h \<and> ''Disk'' = lb then 1 else 0)" by (rule violation_count)
  have "length (filter ?P (host_violations th (h', m))) =
        length (filter ?P (violation th h' m (''cpu_usage'', ''cpu'', ''CPU''))) +
        length (filter ?P (violation th h' m (''memory_usage'', ''memory'', ''Memory''))) +
        length (filter ?P (violation th h' m (''disk_usage'', ''disk'', ''Disk'')))"
    by (simp add: host_violations_def metric_kinds_def)
  with c me d show ?thesis by (auto split: if_splits)
qed

lemma violations_count:
  assumes "distinct (map fst snapshot)"
  shows "length (filter (\<lambda>c. fst c = h \<and> fst (snd c) = lb) (violations th snapshot)) \<le>
         (if h \<in> fst ` set snapshot then 1 else 0)"
  using assms
proof (induction snapshot)
  case Nil
  show ?case by (simp add: violations_def)
next
  case (Cons item snapshot)
  obtain h' m where item: "item = (h', m)" by (cases item)
  let ?P = "\<lambda>c::string \<times> string \<times> json \<times> json. fst c = h \<and> fst (snd c) = lb"
  have split: "length (filter ?P (violations th (item # snapshot))) =
        length (filter ?P (host_violations th (h', m))) + length (filter ?P (violations th snapshot))"
    by (simp add: violations_def item)
  have 1: "length (filter ?P (host_violations th (h', m))) \<le> (if h' = h then 1 else 0)"
    by (rule host_violations_count)
  have 2: "length (filter ?P (violations th snapshot)) \<le> (if h \<in> fst ` set snapshot then 1 else 0)"
    using Cons by simp
  have 3: "h' \<notin> fst ` set snapshot" using Cons.prems item by simp
  show ?case
  proof (cases "h' = h")
    case True
    with 3 2 have "length (filter ?P (violations th snapshot)) = 0" by simp
    with 1 True split item show ?thesis by simp
  next
    case False
    with 1 have "length (filter ?P (host_violations th (h', m))) = 0" by simp
    with 2 False split item show ?thesis by simp
  qed
qed

lemma count_without_timestamp:
  "length (filter (\<lambda>a. hostname a = h \<and> type a = lb) alerts) =
   length (filter (\<lambda>c. fst c = h \<and> fst (snd c) = lb) (map without_timestamp alerts))"
  by (induction alerts) (simp_all add: without_timestamp_def)

subsection \<open>One pass of the loop\<close>

lemma check_alerts_cycle_returns: "fst (check_alerts_cycle net clock s) = None"
  by (simp add: check_alerts_cycle_def print_error_def split: prod.splits option.splits)

lemma check_alerts_returns: "fst (check_alerts n net clock s) = None"
proof (induction n arbitrary: s)
  case 0
  show ?case by simp
next
  case (Suc n)
  obtain eo s' where c: "check_alerts_cycle net clock s = (eo, s')"
    by (cases "check_alerts_cycle net clock s")
  with check_alerts_cycle_returns[of net clock s] have "eo = None" by simp
  with c Suc show ?case by simp
qed

lemma check_alerts_try_requests:
  "requests_sent (snd (check_alerts_try net clock s)) = requests_sent s + 1"
proof (cases "net (requests_sent s)")
  case (Inl e)
  then show ?thesis by (simp add: check_alerts_try_def requests_get_def)
next
  case (Inr resp)
  show ?thesis
  proof (cases "status_code resp = 200")
    case False
    with Inr show ?thesis by (simp add: check_alerts_try_def requests_get_def)
  next
    case True
    show ?thesis
    proof (cases "response_json resp")
      case (Inl e)
      with Inr True show ?thesis by (simp add: check_alerts_try_def requests_get_def)
    next
      case (Inr j)
      obtain eo s' where E: "evaluate clock j (s\<lparr>requests_sent := requests_sent s + 1\<rparr>) = (eo, s')"
        by (cases "evaluate clock j (s\<lparr>requests_sent := requests_sent s + 1\<rparr>)")
      from evaluate_frame[OF E] E Inr True \<open>net (requests_sent s) = Inr resp\<close>
      show ?thesis by (simp add: check_alerts_try_def requests_get_def)
    qed
  qed
qed

lemma check_alerts_cycle_requests:
  "requests_sent (snd (check_alerts_cycle net clock s)) = requests_sent s + 1"
proof -
  obtain eo s' where t: "check_alerts_try net clock s = (eo, s')"
    by (cases "check_alerts_try net clock s")
  with check_alerts_try_requests[of net clock s] have "requests_sent s' = requests_sent s + 1"
    by simp
  with t show ?thesis
    by (cases eo) (simp_all add: check_alerts_cycle_def print_error_def)
qed

lemma fetch_fails_try:
  assumes "fetch_fails net s"
  shows "active_alerts (snd (check_alerts_try net clock s)) = active_alerts s \<and>
         ALERT_THRESHOLDS (snd (check_alerts_try net clock s)) = ALERT_THRESHOLDS s"
  using assms
  by (auto simp: fetch_fails_def check_alerts_try_def requests_get_def response_json_def
      split: sum.splits)

lemma cycle_host1_then_host2:
  "check_alerts_cycle net_host1_then_host2 clock_morning initial_state =
     (None,
      initial_state\<lparr>requests_sent := 1,
        active_alerts :=
          [\<lparr>hostname = ''host1'', type = ''CPU'', value = JNum (185 / 2), threshold = JNum 80,
            timestamp = ''2024-01-01T08:00:00''\<rparr>,
           \<lparr>hostname = ''host1'', type = ''Disk'', value = JNum 95, threshold = JNum 90,
            timestamp = ''2024-01-01T08:00:00''\<rparr>],
        now_calls := 2\<rparr>)"
  by (simp add: check_alerts_cycle_def check_alerts_try_def requests_get_def response_json_def
      net_host1_then_host2_def evaluate_host1 initial_state_def clock_morning_def)

subsection \<open>A cycle with updates in between\<close>

lemma run_steps_Check: "run_steps clock (map Check items) s = check_hosts clock items s"
  by (induction items arbitrary: s) (simp_all split: prod.splits option.splits)

lemma run_steps_append:
  assumes "run_steps clock xs s = (None, s1)"
  shows "run_steps clock (xs @ ys) s = run_steps clock ys s1"
  using assms
proof (induction xs arbitrary: s)
  case Nil
  then show ?case by simp
next
  case (Cons x xs)
  show ?case
  proof (cases x)
    case (Check item)
    obtain e t where h: "check_host clock item s = (e, t)" by (cases "check_host clock item s")
    with Cons.prems Check have e: "e = None" and r: "run_steps clock xs t = (None, s1)"
      by (auto split: option.splits)
    from Cons.IH[OF r] h e Check show ?thesis by simp
  next
    case (Update p)
    with Cons.prems have "run_steps clock xs (snd (api_alerts_config (POST p) s)) = (None, s1)"
      by simp
    from Cons.IH[OF this] Update show ?thesis by simp
  qed
qed

lemma run_steps_prefix_None:
  assumes "run_steps clock (xs @ ys) s = (None, s')"
  shows "\<exists>s1. run_steps clock xs s = (None, s1)"
  using assms
proof (induction xs arbitrary: s)
  case Nil
  then show ?case by simp
next
  case (Cons x xs)
  show ?case
  proof (cases x)
    case (Check item)
    obtain e t where h: "check_host clock item s = (e, t)" by (cases "check_host clock item s")
    with Cons.prems Check have e: "e = None" and r: "run_steps clock (xs @ ys) t = (None, s')"
      by (auto split: option.splits)
    from Cons.IH[OF r] h e Check show ?thesis by simp
  next
    case (Update p)
    with Cons.prems have "run_steps clock (xs @ ys) (snd (api_alerts_config (POST p) s)) = (None, s')"
      by simp
    from Cons.IH[OF this] Update show ?thesis by simp
  qed
qed

lemma update_between:
  assumes "run_steps clock (map Check before @ Update partial # map Check after) s = (None, s')"
  shows "map without_timestamp (active_alerts s') =
           map without_timestamp (active_alerts s) @ violations (ALERT_THRESHOLDS s) before @
           violations (dict_update (ALERT_THRESHOLDS s) partial) after \<and>
         ALERT_THRESHOLDS s' = dict_update (ALERT_THRESHOLDS s) partial"
proof -
  from run_steps_prefix_None[OF assms] obtain s1 where
    1: "run_steps clock (map Check before) s = (None, s1)" by blast
  then have c1: "check_hosts clock before s = (None, s1)" by (simp add: run_steps_Check)
  let ?s2 = "snd (api_alerts_config (POST partial) s1)"
  from run_steps_append[OF 1, of "Update partial # map Check after"] assms
  have "run_steps clock (map Check after) ?s2 = (None, s')" by simp
  then have c2: "check_hosts clock after ?s2 = (None, s')" by (simp add: run_steps_Check)
  have t1: "ALERT_THRESHOLDS s1 = ALERT_THRESHOLDS s" using check_hosts_frame[OF c1] by simp
  have t2: "ALERT_THRESHOLDS ?s2 = dict_update (ALERT_THRESHOLDS s) partial"
    using t1 by (simp add: Let_def)
  have a2: "active_alerts ?s2 = active_alerts s1" by (simp add: Let_def)
  from check_hosts_None[OF c1] check_hosts_None[OF c2] check_hosts_frame[OF c2] t2 a2
  show ?thesis by simp
qed

lemma check_host_zeta:
  "ALERT_THRESHOLDS s = initial_thresholds \<Longrightarrow>
   check_host clock (''zeta'', zeta_metrics) s =
     (None,
      s\<lparr>active_alerts := active_alerts s @
          [\<lparr>hostname = ''zeta'', type = ''CPU'', value = JNum (185 / 2), threshold = JNum 80,
            timestamp = clock (now_calls s)\<rparr>,
           \<lparr>hostname = ''zeta'', type = ''Disk'', value = JNum 95, threshold = JNum 90,
            timestamp = clock (Suc (now_calls s))\<rparr>],
         now_calls := Suc (Suc (now_calls s))\<rparr>)"
  by (simp add: check_host_def check_metric_def initial_thresholds_def zeta_metrics_def
      dict_getitem_def)

lemma check_host_alpha:
  "ALERT_THRESHOLDS s = initial_thresholds \<Longrightarrow>
   check_host clock (''alpha'', alpha_metrics) s =
     (None,
      s\<lparr>active_alerts := active_alerts s @
          [\<lparr>hostname = ''alpha'', type = ''CPU'', value = JNum 85, threshold = JNum 80,
            timestamp = clock (now_calls s)\<rparr>,
           \<lparr>hostname = ''alpha'', type = ''Memory'', value = JNum 99, threshold = JNum 85,
            timestamp = clock (Suc (now_calls s))\<rparr>],
         now_calls := Suc (Suc (now_calls s))\<rparr>)"
  by (simp add: check_host_def check_metric_def initial_thresholds_def alpha_metrics_def
      dict_getitem_def)

lemma violations_two_hosts:
  "violations initial_thresholds two_host_snapshot =
     [(''zeta'', ''CPU'', JNum (185 / 2), JNum 80), (''zeta'', ''Disk'', JNum 95, JNum 90),
      (''alpha'', ''CPU'', JNum 85, JNum 80), (''alpha'', ''Memory'', JNum 99, JNum 85)]"
  by (simp add: violations_def host_violations_def violation_def metric_kinds_def
      two_host_snapshot_def zeta_metrics_def alpha_metrics_def initial_thresholds_def
      dict_getitem_def)

lemma check_alerts_try_two_hosts:
  "check_alerts_try net_two_hosts clock initial_state =
     (None,
      initial_state\<lparr>requests_sent := 1,
        active_alerts :=
          [\<lparr>hostname = ''zeta'', type = ''CPU'', value = JNum (185 / 2), threshold = JNum 80,
            timestamp = clock 0\<rparr>,
           \<lparr>hostname = ''zeta'', type = ''Disk'', value = JNum 95, threshold = JNum 90,
            timestamp = clock 1\<rparr>,
           \<lparr>hostname = ''alpha'', type = ''CPU'', value = JNum 85, threshold = JNum 80,
            timestamp = clock 2\<rparr>,
           \<lparr>hostname = ''alpha'', type = ''Memory'', value = JNum 99, threshold = JNum 85,
            timestamp = clock 3\<rparr>],
        now_calls := 4\<rparr>)"
  by (simp add: check_alerts_try_def requests_get_def response_json_def net_two_hosts_def
      evaluate_def two_host_snapshot_def check_host_zeta check_host_alpha initial_state_def
      numeral_eq_Suc)

lemma check_host_twin_80:
  "ALERT_THRESHOLDS s = initial_thresholds \<Longrightarrow>
   check_host clock (h, twin_metrics) s =
     (None,
      s\<lparr>active_alerts := active_alerts s @
          [\<lparr>hostname = h, type = ''CPU'', value = JNum (185 / 2), threshold = JNum 80,
            timestamp = clock (now_calls s)\<rparr>],
         now_calls := Suc (now_calls s)\<rparr>)"
  by (simp add: check_host_def check_metric_def initial_thresholds_def twin_metrics_def
      dict_getitem_def)

lemma check_host_twin_90:
  "ALERT_THRESHOLDS s = [(''cpu'', JNum 90), (''memory'', JNum 85), (''disk'', JNum 90)] \<Longrightarrow>
   check_host clock (h, twin_metrics) s =
     (None,
      s\<lparr>active_alerts := active_alerts s @
          [\<lparr>hostname = h, type = ''CPU'', value = JNum (185 / 2), threshold = JNum 90,
            timestamp = clock (now_calls s)\<rparr>],
         now_calls := Suc (now_calls s)\<rparr>)"
  by (simp add: check_host_def check_metric_def twin_metrics_def dict_getitem_def)

lemma run_torn_schedule:
  "run_steps clock torn_schedule initial_state =
     (None,
      initial_state\<lparr>
        ALERT_THRESHOLDS := [(''cpu'', JNum 90), (''memory'', JNum 85), (''disk'', JNum 90)],
        active_alerts :=
          [\<lparr>hostname = ''hostA'', type = ''CPU'', value = JNum (185 / 2), threshold = JNum 80,
            timestamp = clock 0\<rparr>,
           \<lparr>hostname = ''hostB'', type = ''CPU'', value = JNum (185 / 2), threshold = JNum 90,
            timestamp = clock 1\<rparr>],
        now_calls := 2\<rparr>)"
  by (simp add: torn_schedule_def check_host_twin_80 check_host_twin_90 initial_state_def
      initial_thresholds_def dict_update_def Let_def numeral_eq_Suc)

section \<open>Evaluation\<close>

text \<open>
  Claim C2. For a snapshot mapping and a threshold set of the data model, the evaluation
  ends without an exception, and the alert list it leaves has an alert for host \<open>h\<close> and
  a metric kind exactly when the host is in the snapshot and its observed value for the
  kind is strictly greater than the threshold of the kind (so an equal value gives none).
  Such an alert carries the observed value and the threshold, and there is at most one
  for a host and a kind. With the initial thresholds 80, 85, 90 and host1 at 92.5, 50, 95
  the list is a CPU alert (92.5 against 80) followed by a Disk alert (95 against 90).
\<close>

theorem alert_iff_exceeds:
  assumes "is_snapshot_mapping snapshot" and "is_threshold_set (ALERT_THRESHOLDS s)"
    and "(mkey, tkey, label) \<in> set metric_kinds"
  shows "(\<exists>s'. evaluate clock (JObj snapshot) s = (None, s') \<and>
           ((\<exists>a\<in>set (active_alerts s'). hostname a = h \<and> type a = label) \<longleftrightarrow>
            (\<exists>m v t. map_of snapshot h = Some m \<and> number_at m mkey = Some v \<and>
               number_at (JObj (ALERT_THRESHOLDS s)) tkey = Some t \<and> t < v)) \<and>
           (\<forall>a\<in>set (active_alerts s'). hostname a = h \<and> type a = label \<longrightarrow>
              (\<exists>m. map_of snapshot h = Some m \<and> py_getitem m mkey = Inr (value a)) \<and>
              dict_getitem (ALERT_THRESHOLDS s) tkey = Inr (threshold a)) \<and>
           length (filter (\<lambda>a. hostname a = h \<and> type a = label) (active_alerts s')) \<le> 1) \<and>
         active_alerts (snd (evaluate clock (JObj host1_snapshot) initial_state)) =
           [\<lparr>hostname = ''host1'', type = ''CPU'', value = JNum (185 / 2), threshold = JNum 80,
             timestamp = clock 0\<rparr>,
            \<lparr>hostname = ''host1'', type = ''Disk'', value = JNum 95, threshold = JNum 90,
             timestamp = clock 1\<rparr>]"
proof -
  let ?th = "ALERT_THRESHOLDS s"
  from evaluate_typed[OF assms(1,2)] obtain s' where E: "evaluate clock (JObj snapshot) s = (None, s')"
    by blast
  note V = evaluate_violations[OF E]
  have dist: "distinct (map fst snapshot)" using assms(1) by (simp add: is_snapshot_mapping_def)
  have in_map: "\<And>m. (h, m) \<in> set snapshot \<longleftrightarrow> map_of snapshot h = Some m"
    using dist by simp
  obtain t where t: "dict_getitem ?th tkey = Inr (JNum t)"
    using assms(2,3) by (auto simp: is_threshold_set_def metric_kinds_def number_at_Some)
  have mem: "\<And>a. a \<in> set (active_alerts s') \<Longrightarrow>
      (hostname a, type a, value a, threshold a) \<in> set (violations ?th snapshot)"
  proof -
    fix a assume "a \<in> set (active_alerts s')"
    then have "without_timestamp a \<in> set (map without_timestamp (active_alerts s'))" by simp
    then show "(hostname a, type a, value a, threshold a) \<in> set (violations ?th snapshot)"
      by (simp add: V without_timestamp_def)
  qed
  have iff: "(\<exists>a\<in>set (active_alerts s'). hostname a = h \<and> type a = label) \<longleftrightarrow>
            (\<exists>m v t. map_of snapshot h = Some m \<and> number_at m mkey = Some v \<and>
               number_at (JObj ?th) tkey = Some t \<and> t < v)" (is "?L \<longleftrightarrow> ?R")
  proof
    assume ?L
    then obtain a where a: "a \<in> set (active_alerts s')" "hostname a = h" "type a = label" by blast
    from mem[OF a(1)] a(2,3) have "(h, label, value a, threshold a) \<in> set (violations ?th snapshot)"
      by simp
    then obtain m mk tk where m: "(h, m) \<in> set snapshot" "(mk, tk, label) \<in> set metric_kinds"
      "py_getitem m mk = Inr (value a)" "dict_getitem ?th tk = Inr (threshold a)"
      "py_gt (value a) (threshold a) = Inr True"
      unfolding violations_mem by blast
    from metric_kinds_label[OF assms(3) m(2)] have k: "mk = mkey" "tk = tkey" by simp_all
    from m(1) assms(1) have "is_metric_snapshot m"
      by (auto simp: is_snapshot_mapping_def list_all_iff)
    with assms(3) obtain v where v: "py_getitem m mkey = Inr (JNum v)"
      by (auto simp: is_metric_snapshot_def metric_kinds_def number_at_Some)
    from v m(3) k have va: "value a = JNum v" by simp
    from t m(4) k have ta: "threshold a = JNum t" by simp
    from m(5) va ta have "t < v" by simp
    with m(1) v t show ?R unfolding in_map number_at_Some by auto
  next
    assume ?R
    then obtain m v t' where r: "map_of snapshot h = Some m" "number_at m mkey = Some v"
      "number_at (JObj ?th) tkey = Some t'" "t' < v" by blast
    from r(3) t have tt: "t' = t" by (simp add: number_at_Some)
    from r(2) have v: "py_getitem m mkey = Inr (JNum v)" by (simp add: number_at_Some)
    from r(1) have hm: "(h, m) \<in> set snapshot" by (simp add: in_map)
    have "py_gt (JNum v) (JNum t) = Inr True" using r(4) tt by simp
    with hm assms(3) v t have "(h, label, JNum v, JNum t) \<in> set (violations ?th snapshot)"
      unfolding violations_mem by blast
    then have "(h, label, JNum v, JNum t) \<in> without_timestamp ` set (active_alerts s')"
      using V by (metis set_map)
    then show ?L by (auto simp: without_timestamp_def)
  qed
  have fields: "\<forall>a\<in>set (active_alerts s'). hostname a = h \<and> type a = label \<longrightarrow>
              (\<exists>m. map_of snapshot h = Some m \<and> py_getitem m mkey = Inr (value a)) \<and>
              dict_getitem ?th tkey = Inr (threshold a)"
  proof (intro ballI impI)
    fix a assume a: "a \<in> set (active_alerts s')" "hostname a = h \<and> type a = label"
    from mem[OF a(1)] a(2) have "(h, label, value a, threshold a) \<in> set (violations ?th snapshot)"
      by simp
    then obtain m mk tk where m: "(h, m) \<in> set snapshot" "(mk, tk, label) \<in> set metric_kinds"
      "py_getitem m mk = Inr (value a)" "dict_getitem ?th tk = Inr (threshold a)"
      unfolding violations_mem by blast
    from metric_kinds_label[OF assms(3) m(2)] have k: "mk = mkey" "tk = tkey" by simp_all
    from m k show "(\<exists>m. map_of snapshot h = Some m \<and> py_getitem m mkey = Inr (value a)) \<and>
              dict_getitem ?th tkey = Inr (threshold a)"
      unfolding in_map by blast
  qed
  have count: "length (filter (\<lambda>a. hostname a = h \<and> type a = label) (active_alerts s')) \<le> 1"
  proof -
    have "length (filter (\<lambda>a. hostname a = h \<and> type a = label) (active_alerts s')) \<le>
          (if h \<in> fst ` set snapshot then 1 else 0)"
      unfolding count_without_timestamp V by (rule violations_count[OF dist])
    then show ?thesis by (simp split: if_splits)
  qed
  have ex: "active_alerts (snd (evaluate clock (JObj host1_snapshot) initial_state)) =
           [\<lparr>hostname = ''host1'', type = ''CPU'', value = JNum (185 / 2), threshold = JNum 80,
             timestamp = clock 0\<rparr>,
            \<lparr>hostname = ''host1'', type = ''Disk'', value = JNum 95, threshold = JNum 90,
             timestamp = clock 1\<rparr>]"
    by (simp add: evaluate_host1 initial_state_def)
  from E iff fields count have gen: "\<exists>s'. evaluate clock (JObj snapshot) s = (None, s') \<and>
           ((\<exists>a\<in>set (active_alerts s'). hostname a = h \<and> type a = label) \<longleftrightarrow>
            (\<exists>m v t. map_of snapshot h = Some m \<and> number_at m mkey = Some v \<and>
               number_at (JObj (ALERT_THRESHOLDS s)) tkey = Some t \<and> t < v)) \<and>
           (\<forall>a\<in>set (active_alerts s'). hostname a = h \<and> type a = label \<longrightarrow>
              (\<exists>m. map_of snapshot h = Some m \<and> py_getitem m mkey = Inr (value a)) \<and>
              dict_getitem (ALERT_THRESHOLDS s) tkey = Inr (threshold a)) \<and>
           length (filter (\<lambda>a. hostname a = h \<and> type a = label) (active_alerts s')) \<le> 1"
    by blast
  from gen ex show ?thesis by (rule conjI)
qed

text \<open>
  On the snapshot of host1: the CPU reading 92.5 exceeds 80 and there is a CPU alert; the
  memory reading 50 does not exceed 85 and there is no Memory alert.
\<close>

theorem alert_iff_exceeds_witness:
  "is_snapshot_mapping host1_snapshot \<and>
   is_threshold_set (ALERT_THRESHOLDS initial_state) \<and>
   (''cpu_usage'', ''cpu'', ''CPU'') \<in> set metric_kinds \<and>
   (''memory_usage'', ''memory'', ''Memory'') \<in> set metric_kinds \<and>
   map_of host1_snapshot ''host1'' = Some host1_metrics \<and>
   number_at host1_metrics ''cpu_usage'' = Some (185 / 2) \<and>
   number_at (JObj (ALERT_THRESHOLDS initial_state)) ''cpu'' = Some 80 \<and>
   number_at host1_metrics ''memory_usage'' = Some 50 \<and>
   number_at (JObj (ALERT_THRESHOLDS initial_state)) ''memory'' = Some 85 \<and>
   (\<exists>a\<in>set (active_alerts (snd (evaluate clock_morning (JObj host1_snapshot) initial_state))).
      hostname a = ''host1'' \<and> type a = ''CPU'') \<and>
   \<not> (\<exists>a\<in>set (active_alerts (snd (evaluate clock_morning (JObj host1_snapshot) initial_state))).
      hostname a = ''host1'' \<and> type a = ''Memory'')"
proof -
  have k1: "(''cpu_usage'', ''cpu'', ''CPU'') \<in> set metric_kinds"
    by (simp add: metric_kinds_def)
  have k2: "(''memory_usage'', ''memory'', ''Memory'') \<in> set metric_kinds"
    by (simp add: metric_kinds_def)
  have m: "map_of host1_snapshot ''host1'' = Some host1_metrics"
    by (simp add: host1_snapshot_def)
  have v1: "number_at host1_metrics ''cpu_usage'' = Some (185 / 2)"
    by (simp add: number_at_def dict_getitem_def host1_metrics_def)
  have t1: "number_at (JObj (ALERT_THRESHOLDS initial_state)) ''cpu'' = Some 80"
    by (simp add: number_at_def dict_getitem_def initial_state_def initial_thresholds_def)
  have v2: "number_at host1_metrics ''memory_usage'' = Some 50"
    by (simp add: number_at_def dict_getitem_def host1_metrics_def)
  have t2: "number_at (JObj (ALERT_THRESHOLDS initial_state)) ''memory'' = Some 85"
    by (simp add: number_at_def dict_getitem_def initial_state_def initial_thresholds_def)
  have v3: "number_at host1_metrics ''disk_usage'' = Some 95"
    by (simp add: number_at_def dict_getitem_def host1_metrics_def)
  have t3: "number_at (JObj (ALERT_THRESHOLDS initial_state)) ''disk'' = Some 90"
    by (simp add: number_at_def dict_getitem_def initial_state_def initial_thresholds_def)
  have "is_metric_snapshot host1_metrics"
    unfolding is_metric_snapshot_def v1 v2 v3 by (simp only: option.distinct simp_thms)
  then have h1: "is_snapshot_mapping host1_snapshot"
    by (simp add: is_snapshot_mapping_def host1_snapshot_def)
  have h2: "is_threshold_set (ALERT_THRESHOLDS initial_state)"
    unfolding is_threshold_set_def t1 t2 t3 by (simp only: option.distinct simp_thms)
  from alert_iff_exceeds[OF h1 h2 k1, of clock_morning "''host1''"]
  obtain s1 where e1: "evaluate clock_morning (JObj host1_snapshot) initial_state = (None, s1)"
    and i1: "(\<exists>a\<in>set (active_alerts s1). hostname a = ''host1'' \<and> type a = ''CPU'') \<longleftrightarrow>
       (\<exists>m v t. map_of host1_snapshot ''host1'' = Some m \<and> number_at m ''cpu_usage'' = Some v \<and>
          number_at (JObj (ALERT_THRESHOLDS initial_state)) ''cpu'' = Some t \<and> t < v)"
    by blast
  from alert_iff_exceeds[OF h1 h2 k2, of clock_morning "''host1''"]
  obtain s2 where e2: "evaluate clock_morning (JObj host1_snapshot) initial_state = (None, s2)"
    and i2: "(\<exists>a\<in>set (active_alerts s2). hostname a = ''host1'' \<and> type a = ''Memory'') \<longleftrightarrow>
       (\<exists>m v t. map_of host1_snapshot ''host1'' = Some m \<and> number_at m ''memory_usage'' = Some v \<and>
          number_at (JObj (ALERT_THRESHOLDS initial_state)) ''memory'' = Some t \<and> t < v)"
    by blast
  have "(80::rat) < 185 / 2" by simp
  with m v1 t1 have r1: "\<exists>m v t. map_of host1_snapshot ''host1'' = Some m \<and>
      number_at m ''cpu_usage'' = Some v \<and>
      number_at (JObj (ALERT_THRESHOLDS initial_state)) ''cpu'' = Some t \<and> t < v"
    by blast
  have r2: "\<not> (\<exists>m v t. map_of host1_snapshot ''host1'' = Some m \<and>
      number_at m ''memory_usage'' = Some v \<and>
      number_at (JObj (ALERT_THRESHOLDS initial_state)) ''memory'' = Some t \<and> t < v)"
    using m v2 t2 by auto
  have c1: "\<exists>a\<in>set (active_alerts (snd (evaluate clock_morning (JObj host1_snapshot) initial_state))).
      hostname a = ''host1'' \<and> type a = ''CPU''"
    using i1 r1 e1 by simp
  have c2: "\<not> (\<exists>a\<in>set (active_alerts (snd (evaluate clock_morning (JObj host1_snapshot) initial_state))).
      hostname a = ''host1'' \<and> type a = ''Memory'')"
    using i2 r2 e2 by simp
  from h1 h2 k1 k2 m v1 t1 v2 t2 c1 c2 show ?thesis by (intro conjI)
qed

text \<open>
  Claim C4, as the code has it. Two evaluations of the same fetched value against the
  same thresholds raise the same exception or none, and leave alert lists of the same
  length and order that agree in \<^verbatim>\<open>hostname\<close>, \<^verbatim>\<open>type\<close>, \<^verbatim>\<open>value\<close> and
  \<^verbatim>\<open>threshold\<close>. The \<^verbatim>\<open>timestamp\<close> of each alert is the reading of
  \<^verbatim>\<open>datetime.now()\<close> taken when the alert is appended, so it is fixed by the clock and not
  by the inputs. The thresholds are not changed.
\<close>

theorem evaluate_deterministic_up_to_timestamp:
  assumes "ALERT_THRESHOLDS s1 = ALERT_THRESHOLDS s2"
  shows "fst (evaluate c1 latest_metrics s1) = fst (evaluate c2 latest_metrics s2) \<and>
         map without_timestamp (active_alerts (snd (evaluate c1 latest_metrics s1))) =
         map without_timestamp (active_alerts (snd (evaluate c2 latest_metrics s2))) \<and>
         map timestamp (active_alerts (snd (evaluate c1 latest_metrics s1))) =
         map c1 [now_calls s1 ..<
                 now_calls s1 + length (active_alerts (snd (evaluate c1 latest_metrics s1)))] \<and>
         ALERT_THRESHOLDS (snd (evaluate c1 latest_metrics s1)) = ALERT_THRESHOLDS s1"
proof -
  obtain eo s' where E: "evaluate c1 latest_metrics s1 = (eo, s')"
    by (cases "evaluate c1 latest_metrics s1")
  from evaluate_rel[OF assms, of c1 latest_metrics c2] evaluate_stamped[OF E] evaluate_frame[OF E] E
  show ?thesis by simp
qed

theorem evaluate_deterministic_up_to_timestamp_witness:
  "ALERT_THRESHOLDS initial_state = ALERT_THRESHOLDS state_with_alert \<and>
   fst (evaluate clock_morning (JObj host1_snapshot) initial_state) = None \<and>
   fst (evaluate clock_evening (JObj host1_snapshot) state_with_alert) = None \<and>
   map without_timestamp
     (active_alerts (snd (evaluate clock_morning (JObj host1_snapshot) initial_state))) =
   map without_timestamp
     (active_alerts (snd (evaluate clock_evening (JObj host1_snapshot) state_with_alert))) \<and>
   map timestamp
     (active_alerts (snd (evaluate clock_morning (JObj host1_snapshot) initial_state))) =
   [''2024-01-01T08:00:00'', ''2024-01-01T08:00:00'']"
  using evaluate_deterministic_up_to_timestamp[of initial_state state_with_alert clock_morning
      "JObj host1_snapshot" clock_evening]
  by (simp add: evaluate_host1 initial_state_def state_with_alert_def clock_morning_def
      clock_evening_def without_timestamp_def)

text \<open>
  The same snapshot and the same thresholds, evaluated in the morning and in the evening,
  give alert lists that differ (in the \<^verbatim>\<open>timestamp\<close> fields).
\<close>

theorem evaluate_deterministic_counterexample:
  "active_alerts (snd (evaluate clock_morning (JObj host1_snapshot) initial_state)) \<noteq>
   active_alerts (snd (evaluate clock_evening (JObj host1_snapshot) initial_state))"
  by (simp add: evaluate_host1 initial_state_def clock_morning_def clock_evening_def)

text \<open>
  Claim C10. When a cycle fetches a snapshot mapping with status 200 and the \<^verbatim>\<open>try\<close>
  block ends without an exception, the alert list it leaves is, timestamps apart, exactly
  the list of the violations: the hosts in the iteration order of the mapping and, for
  each host, the kinds in the order CPU, Memory, Disk. The timestamps are the successive
  clock readings. So the list is the concatenation of one group per host, in that order.
\<close>

theorem published_alerts_ordered:
  assumes "net (requests_sent s) = Inr resp" and "status_code resp = 200"
    and "body resp = Inr (JObj snapshot)"
    and "check_alerts_try net clock s = (None, s')"
  shows "check_alerts_cycle net clock s = (None, s') \<and>
         map without_timestamp (active_alerts s') = violations (ALERT_THRESHOLDS s) snapshot \<and>
         map timestamp (active_alerts s') =
           map clock [now_calls s ..< now_calls s + length (active_alerts s')] \<and>
         (\<exists>groups. active_alerts s' = concat groups \<and> list_all2 host_group snapshot groups)"
proof -
  let ?s1 = "s\<lparr>requests_sent := requests_sent s + 1\<rparr>"
  from assms have E: "evaluate clock (JObj snapshot) ?s1 = (None, s')"
    by (simp add: check_alerts_try_def requests_get_def response_json_def)
  then have "check_hosts clock snapshot (?s1\<lparr>active_alerts := []\<rparr>) = (None, s')"
    by (simp add: evaluate_def)
  from check_hosts_group[OF this]
  have g: "\<exists>groups. active_alerts s' = concat groups \<and> list_all2 host_group snapshot groups"
    by simp
  have v: "map without_timestamp (active_alerts s') = violations (ALERT_THRESHOLDS s) snapshot"
    using evaluate_violations[OF E] by simp
  have t: "map timestamp (active_alerts s') =
           map clock [now_calls s ..< now_calls s + length (active_alerts s')]"
    using evaluate_stamped[OF E] by simp
  have c: "check_alerts_cycle net clock s = (None, s')"
    using assms(4) by (simp add: check_alerts_cycle_def)
  from c v t g show ?thesis by (intro conjI)
qed

text \<open>
  Two hosts, zeta before alpha in the mapping: the alerts of zeta (CPU, Disk) come before
  those of alpha (CPU, Memory).
\<close>

theorem published_alerts_ordered_witness:
  "net_two_hosts (requests_sent initial_state) =
     Inr \<lparr>status_code = 200, body = Inr (JObj two_host_snapshot)\<rparr> \<and>
   map fst two_host_snapshot = [''zeta'', ''alpha''] \<and>
   fst (check_alerts_try net_two_hosts clock_morning initial_state) = None \<and>
   map without_timestamp
     (active_alerts (snd (check_alerts_try net_two_hosts clock_morning initial_state))) =
     [(''zeta'', ''CPU'', JNum (185 / 2), JNum 80), (''zeta'', ''Disk'', JNum 95, JNum 90),
      (''alpha'', ''CPU'', JNum 85, JNum 80), (''alpha'', ''Memory'', JNum 99, JNum 85)] \<and>
   violations (ALERT_THRESHOLDS initial_state) two_host_snapshot =
     [(''zeta'', ''CPU'', JNum (185 / 2), JNum 80), (''zeta'', ''Disk'', JNum 95, JNum 90),
      (''alpha'', ''CPU'', JNum 85, JNum 80), (''alpha'', ''Memory'', JNum 99, JNum 85)]"
proof -
  let ?s' = "snd (check_alerts_try net_two_hosts clock_morning initial_state)"
  have n: "net_two_hosts (requests_sent initial_state) =
     Inr \<lparr>status_code = 200, body = Inr (JObj two_host_snapshot)\<rparr>"
    by (simp add: net_two_hosts_def)
  have h: "map fst two_host_snapshot = [''zeta'', ''alpha'']"
    by (simp add: two_host_snapshot_def)
  have f: "fst (check_alerts_try net_two_hosts clock_morning initial_state) = None"
    by (simp add: check_alerts_try_two_hosts)
  then have t: "check_alerts_try net_two_hosts clock_morning initial_state = (None, ?s')"
    by (simp add: prod_eq_iff)
  have th: "ALERT_THRESHOLDS initial_state = initial_thresholds"
    by (simp add: initial_state_def)
  have v: "violations (ALERT_THRESHOLDS initial_state) two_host_snapshot =
     [(''zeta'', ''CPU'', JNum (185 / 2), JNum 80), (''zeta'', ''Disk'', JNum 95, JNum 90),
      (''alpha'', ''CPU'', JNum 85, JNum 80), (''alpha'', ''Memory'', JNum 99, JNum 85)]"
    unfolding th by (rule violations_two_hosts)
  from published_alerts_ordered[OF n _ _ t]
  have "map without_timestamp (active_alerts ?s') =
        violations (ALERT_THRESHOLDS initial_state) two_host_snapshot"
    by simp
  with v have a: "map without_timestamp (active_alerts ?s') =
     [(''zeta'', ''CPU'', JNum (185 / 2), JNum 80), (''zeta'', ''Disk'', JNum 95, JNum 90),
      (''alpha'', ''CPU'', JNum 85, JNum 80), (''alpha'', ''Memory'', JNum 99, JNum 85)]"
    by simp
  from n h f a v show ?thesis by (intro conjI)
qed

section \<open>The poll cycle\<close>

text \<open>
  Claim C1, as the code has it. No pass of the loop lets an exception escape, so the loop
  goes on after any number of passes. When the fetch of a cycle fails (the request raises,
  the status is not 200, or the body is not JSON) the alert list and the thresholds after
  the cycle are those before it. When the \<^verbatim>\<open>try\<close> block raises, at the fetch or during the
  evaluation, the exception is printed once and the cycle is over.
\<close>

theorem failed_cycle_contained:
  "fst (check_alerts_cycle net clock s) = None \<and>
   fst (check_alerts n net clock s) = None \<and>
   (fetch_fails net s \<longrightarrow>
      active_alerts (snd (check_alerts_cycle net clock s)) = active_alerts s \<and>
      ALERT_THRESHOLDS (snd (check_alerts_cycle net clock s)) = ALERT_THRESHOLDS s) \<and>
   (\<forall>e. fst (check_alerts_try net clock s) = Some e \<longrightarrow>
      stdout (snd (check_alerts_cycle net clock s)) =
      stdout s @ [''Error checking alerts: '' @ str_exn e])"
proof -
  have 1: "fetch_fails net s \<longrightarrow>
      active_alerts (snd (check_alerts_cycle net clock s)) = active_alerts s \<and>
      ALERT_THRESHOLDS (snd (check_alerts_cycle net clock s)) = ALERT_THRESHOLDS s"
    using fetch_fails_try[of net s clock]
    by (auto simp: check_alerts_cycle_def print_error_def split: prod.splits option.splits)
  have 2: "\<forall>e. fst (check_alerts_try net clock s) = Some e \<longrightarrow>
      stdout (snd (check_alerts_cycle net clock s)) =
      stdout s @ [''Error checking alerts: '' @ str_exn e]"
  proof (intro allI impI)
    fix e assume e: "fst (check_alerts_try net clock s) = Some e"
    obtain s' where t: "check_alerts_try net clock s = (Some e, s')"
      using e by (cases "check_alerts_try net clock s") simp
    have "stdout s' = stdout s"
    proof (cases "net (requests_sent s)")
      case (Inl x)
      with t show ?thesis by (auto simp: check_alerts_try_def requests_get_def)
    next
      case (Inr resp)
      show ?thesis
      proof (cases "status_code resp = 200")
        case False
        with Inr t show ?thesis by (auto simp: check_alerts_try_def requests_get_def)
      next
        case True
        show ?thesis
        proof (cases "response_json resp")
          case (Inl x)
          with Inr True t show ?thesis by (auto simp: check_alerts_try_def requests_get_def)
        next
          case (Inr j)
          with True \<open>net (requests_sent s) = Inr resp\<close> t
          have "evaluate clock j (s\<lparr>requests_sent := requests_sent s + 1\<rparr>) = (Some e, s')"
            by (simp add: check_alerts_try_def requests_get_def)
          from evaluate_frame[OF this] show ?thesis by simp
        qed
      qed
    qed
    with t show "stdout (snd (check_alerts_cycle net clock s)) =
      stdout s @ [''Error checking alerts: '' @ str_exn e]"
      by (simp add: check_alerts_cycle_def print_error_def)
  qed
  from check_alerts_cycle_returns[of net clock s] check_alerts_returns[of n net clock s] 1 2
  show ?thesis by blast
qed

theorem failed_cycle_contained_witness:
  "fetch_fails net_timeout state_with_alert \<and>
   fst (check_alerts_try net_timeout clock_morning state_with_alert) =
     Some (RequestException ''Read timed out. (read timeout=5)'') \<and>
   fst (check_alerts_cycle net_timeout clock_morning state_with_alert) = None \<and>
   fst (check_alerts 3 net_timeout clock_morning state_with_alert) = None \<and>
   active_alerts (snd (check_alerts_cycle net_timeout clock_morning state_with_alert)) =
     [old_alert] \<and>
   stdout (snd (check_alerts_cycle net_timeout clock_morning state_with_alert)) =
     [''Error checking alerts: Read timed out. (read timeout=5)'']"
  using failed_cycle_contained[of net_timeout clock_morning state_with_alert 3]
  by (simp add: fetch_fails_def net_timeout_def state_with_alert_def initial_state_def
      check_alerts_try_def requests_get_def)

text \<open>
  A response with status 200 whose host has no \<^verbatim>\<open>cpu_usage\<close>: the evaluation raises
  \<^verbatim>\<open>KeyError\<close> after \<^verbatim>\<open>active_alerts.clear()\<close>, and the alert held before the cycle
  is gone.
\<close>

theorem failed_cycle_counterexample:
  "fst (check_alerts_try net_missing_keys clock_morning state_with_alert) =
     Some (KeyError ''cpu_usage'') \<and>
   active_alerts state_with_alert = [old_alert] \<and>
   active_alerts (snd (check_alerts_cycle net_missing_keys clock_morning state_with_alert)) = []"
  by (simp add: check_alerts_cycle_def check_alerts_try_def requests_get_def response_json_def
      net_missing_keys_def evaluate_def check_host_def check_metric_def dict_getitem_def
      print_error_def state_with_alert_def initial_state_def)

text \<open>
  Claim C5, as the code has it. A request that raises, and a response with status 200
  whose body is not JSON, end the cycle with the exception printed, carrying its text (the
  message of \<^verbatim>\<open>requests\<close>, or of the decoder). A response whose status is not 200
  ends the cycle with nothing printed and nothing else changed. In every case the cycle
  sends exactly one request.
\<close>

theorem fetch_failure_reporting:
  "(\<forall>e. net (requests_sent s) = Inl e \<longrightarrow>
      check_alerts_cycle net clock s =
        (None, s\<lparr>requests_sent := requests_sent s + 1,
                  stdout := stdout s @ [''Error checking alerts: '' @ str_exn e]\<rparr>)) \<and>
   (\<forall>resp msg.
      net (requests_sent s) = Inr resp \<and> status_code resp = 200 \<and> body resp = Inl msg \<longrightarrow>
      check_alerts_cycle net clock s =
        (None, s\<lparr>requests_sent := requests_sent s + 1,
                  stdout := stdout s @ [''Error checking alerts: '' @ msg]\<rparr>)) \<and>
   (\<forall>resp. net (requests_sent s) = Inr resp \<and> status_code resp \<noteq> 200 \<longrightarrow>
      check_alerts_cycle net clock s = (None, s\<lparr>requests_sent := requests_sent s + 1\<rparr>)) \<and>
   requests_sent (snd (check_alerts_cycle net clock s)) = requests_sent s + 1"
  using check_alerts_cycle_requests[of net clock s]
  by (simp add: check_alerts_cycle_def check_alerts_try_def requests_get_def response_json_def
      print_error_def)

theorem fetch_failure_reporting_witness:
  "net_timeout (requests_sent initial_state) =
     Inl (RequestException ''Read timed out. (read timeout=5)'') \<and>
   check_alerts_cycle net_timeout clock_morning initial_state =
     (None, initial_state\<lparr>requests_sent := 1,
        stdout := [''Error checking alerts: Read timed out. (read timeout=5)'']\<rparr>) \<and>
   net_not_json (requests_sent initial_state) =
     Inr \<lparr>status_code = 200, body = Inl ''Expecting value: line 1 column 1 (char 0)''\<rparr> \<and>
   check_alerts_cycle net_not_json clock_morning initial_state =
     (None, initial_state\<lparr>requests_sent := 1,
        stdout := [''Error checking alerts: Expecting value: line 1 column 1 (char 0)'']\<rparr>) \<and>
   status_code \<lparr>status_code = 500,
     body = Inr (JObj [(''error'', JStr ''database is locked'')])\<rparr> \<noteq> 200 \<and>
   check_alerts_cycle net_server_error clock_morning initial_state =
     (None, initial_state\<lparr>requests_sent := 1\<rparr>)"
  using fetch_failure_reporting[of net_timeout initial_state clock_morning]
    fetch_failure_reporting[of net_not_json initial_state clock_morning]
    fetch_failure_reporting[of net_server_error initial_state clock_morning]
  by (simp add: net_timeout_def net_not_json_def net_server_error_def initial_state_def)

text \<open>
  A response with status 500: the \<^verbatim>\<open>try\<close> block ends without an exception and nothing
  is printed.
\<close>

theorem fetch_failure_reporting_counterexample:
  "net_server_error (requests_sent initial_state) =
     Inr \<lparr>status_code = 500, body = Inr (JObj [(''error'', JStr ''database is locked'')])\<rparr> \<and>
   fst (check_alerts_try net_server_error clock_morning initial_state) = None \<and>
   stdout (snd (check_alerts_cycle net_server_error clock_morning initial_state)) = []"
  by (simp add: check_alerts_cycle_def check_alerts_try_def requests_get_def
      net_server_error_def initial_state_def)

section \<open>Configuration updates during a cycle\<close>

text \<open>
  Claim C9, as the code has it. A cycle during which no update is handled reads one
  version of the thresholds: it is the plain loop, it leaves the thresholds as they were
  and judges every host against them. The reads are not shielded from an update, though:
  when the handler merges a partial between the checks of two hosts, the hosts before it
  are judged against the old thresholds and the hosts after it against the merged ones,
  and the alert list of that one cycle holds both.
\<close>

theorem threshold_reads_follow_updates:
  "run_steps clock (map Check items) s = check_hosts clock items s \<and>
   (\<forall>s'. check_hosts clock items s = (None, s') \<longrightarrow>
      ALERT_THRESHOLDS s' = ALERT_THRESHOLDS s \<and>
      map without_timestamp (active_alerts s') =
        map without_timestamp (active_alerts s) @ violations (ALERT_THRESHOLDS s) items) \<and>
   (\<forall>s'. run_steps clock (map Check before @ Update partial # map Check after) s = (None, s') \<longrightarrow>
      ALERT_THRESHOLDS s' = dict_update (ALERT_THRESHOLDS s) partial \<and>
      map without_timestamp (active_alerts s') =
        map without_timestamp (active_alerts s) @ violations (ALERT_THRESHOLDS s) before @
        violations (dict_update (ALERT_THRESHOLDS s) partial) after)"
proof -
  have 2: "\<forall>s'. check_hosts clock items s = (None, s') \<longrightarrow>
      ALERT_THRESHOLDS s' = ALERT_THRESHOLDS s \<and>
      map without_timestamp (active_alerts s') =
        map without_timestamp (active_alerts s) @ violations (ALERT_THRESHOLDS s) items"
    using check_hosts_frame check_hosts_None by blast
  have 3: "\<forall>s'. run_steps clock (map Check before @ Update partial # map Check after) s = (None, s') \<longrightarrow>
      ALERT_THRESHOLDS s' = dict_update (ALERT_THRESHOLDS s) partial \<and>
      map without_timestamp (active_alerts s') =
        map without_timestamp (active_alerts s) @ violations (ALERT_THRESHOLDS s) before @
        violations (dict_update (ALERT_THRESHOLDS s) partial) after"
    using update_between by blast
  from run_steps_Check[of clock items s] 2 3 show ?thesis by (intro conjI)
qed

theorem threshold_reads_follow_updates_witness:
  "fst (check_hosts clock_morning two_host_snapshot initial_state) = None \<and>
   run_steps clock_morning (map Check two_host_snapshot) initial_state =
     check_hosts clock_morning two_host_snapshot initial_state \<and>
   map without_timestamp
     (active_alerts (snd (check_hosts clock_morning two_host_snapshot initial_state))) =
     [(''zeta'', ''CPU'', JNum (185 / 2), JNum 80), (''zeta'', ''Disk'', JNum 95, JNum 90),
      (''alpha'', ''CPU'', JNum 85, JNum 80), (''alpha'', ''Memory'', JNum 99, JNum 85)] \<and>
   fst (run_steps clock_morning
          (map Check [(''zeta'', zeta_metrics)] @ Update [(''memory'', JNum 40)] #
           map Check [(''alpha'', alpha_metrics)]) initial_state) = None \<and>
   map without_timestamp
     (active_alerts (snd (run_steps clock_morning
          (map Check [(''zeta'', zeta_metrics)] @ Update [(''memory'', JNum 40)] #
           map Check [(''alpha'', alpha_metrics)]) initial_state))) =
     [(''zeta'', ''CPU'', JNum (185 / 2), JNum 80), (''zeta'', ''Disk'', JNum 95, JNum 90),
      (''alpha'', ''CPU'', JNum 85, JNum 80), (''alpha'', ''Memory'', JNum 99, JNum 40)]"
proof -
  let ?steps = "map Check [(''zeta'', zeta_metrics)] @ Update [(''memory'', JNum 40)] #
           map Check [(''alpha'', alpha_metrics)]"
  let ?r = "run_steps clock_morning ?steps initial_state"
  let ?c = "check_hosts clock_morning two_host_snapshot initial_state"
  note T = threshold_reads_follow_updates[of clock_morning two_host_snapshot initial_state
      "[(''zeta'', zeta_metrics)]" "[(''memory'', JNum 40)]" "[(''alpha'', alpha_metrics)]"]
  have th: "ALERT_THRESHOLDS initial_state = initial_thresholds"
    by (simp add: initial_state_def)
  have a0: "active_alerts initial_state = []" by (simp add: initial_state_def)
  have fc: "fst ?c = None"
    by (simp add: two_host_snapshot_def check_host_zeta check_host_alpha th)
  then have c: "?c = (None, snd ?c)" by (simp add: prod_eq_iff)
  from T c have "map without_timestamp (active_alerts (snd ?c)) =
      map without_timestamp (active_alerts initial_state) @
      violations (ALERT_THRESHOLDS initial_state) two_host_snapshot"
    by blast
  then have vc: "map without_timestamp (active_alerts (snd ?c)) =
     [(''zeta'', ''CPU'', JNum (185 / 2), JNum 80), (''zeta'', ''Disk'', JNum 95, JNum 90),
      (''alpha'', ''CPU'', JNum 85, JNum 80), (''alpha'', ''Memory'', JNum 99, JNum 85)]"
    by (simp add: a0 th violations_two_hosts)
  have fr: "fst ?r = None"
    by (simp add: check_host_def check_metric_def zeta_metrics_def alpha_metrics_def
        initial_state_def initial_thresholds_def dict_update_def dict_getitem_def Let_def)
  then have r: "?r = (None, snd ?r)" by (simp add: prod_eq_iff)
  from T r have "map without_timestamp (active_alerts (snd ?r)) =
      map without_timestamp (active_alerts initial_state) @
      violations (ALERT_THRESHOLDS initial_state) [(''zeta'', zeta_metrics)] @
      violations (dict_update (ALERT_THRESHOLDS initial_state) [(''memory'', JNum 40)])
        [(''alpha'', alpha_metrics)]"
    by blast
  then have vr: "map without_timestamp (active_alerts (snd ?r)) =
     [(''zeta'', ''CPU'', JNum (185 / 2), JNum 80), (''zeta'', ''Disk'', JNum 95, JNum 90),
      (''alpha'', ''CPU'', JNum 85, JNum 80), (''alpha'', ''Memory'', JNum 99, JNum 40)]"
    by (simp add: a0 th violations_def host_violations_def violation_def metric_kinds_def
        zeta_metrics_def alpha_metrics_def initial_thresholds_def dict_update_def
        dict_getitem_def)
  from T have eq: "run_steps clock_morning (map Check two_host_snapshot) initial_state = ?c"
    by blast
  from fc eq vc fr vr show ?thesis by (intro conjI)
qed

text \<open>
  With the POST of \<^verbatim>\<open>{"cpu": 90}\<close> handled between the two hosts, hostA has a CPU alert
  against 80 and hostB, at the same reading, one against 90: the list of this cycle is
  neither the one of the old thresholds nor the one of the new thresholds.
\<close>

theorem threshold_reads_counterexample:
  "map fst twin_snapshot = [''hostA'', ''hostB''] \<and>
   torn_schedule =
     [Check (twin_snapshot ! 0), Update [(''cpu'', JNum 90)], Check (twin_snapshot ! 1)] \<and>
   map without_timestamp (active_alerts (snd (run_steps clock_morning torn_schedule initial_state))) =
     [(''hostA'', ''CPU'', JNum (185 / 2), JNum 80), (''hostB'', ''CPU'', JNum (185 / 2), JNum 90)] \<and>
   violations (ALERT_THRESHOLDS initial_state) twin_snapshot =
     [(''hostA'', ''CPU'', JNum (185 / 2), JNum 80), (''hostB'', ''CPU'', JNum (185 / 2), JNum 80)] \<and>
   violations (dict_update (ALERT_THRESHOLDS initial_state) [(''cpu'', JNum 90)]) twin_snapshot =
     [(''hostA'', ''CPU'', JNum (185 / 2), JNum 90), (''hostB'', ''CPU'', JNum (185 / 2), JNum 90)]"
proof -
  have 1: "map fst twin_snapshot = [''hostA'', ''hostB'']"
    by (simp add: twin_snapshot_def)
  have 2: "torn_schedule =
     [Check (twin_snapshot ! 0), Update [(''cpu'', JNum 90)], Check (twin_snapshot ! 1)]"
    by (simp add: torn_schedule_def twin_snapshot_def)
  have 3: "map without_timestamp
      (active_alerts (snd (run_steps clock_morning torn_schedule initial_state))) =
     [(''hostA'', ''CPU'', JNum (185 / 2), JNum 80), (''hostB'', ''CPU'', JNum (185 / 2), JNum 90)]"
    by (simp add: run_torn_schedule without_timestamp_def)
  have 4: "violations (ALERT_THRESHOLDS initial_state) twin_snapshot =
     [(''hostA'', ''CPU'', JNum (185 / 2), JNum 80), (''hostB'', ''CPU'', JNum (185 / 2), JNum 80)]"
    by (simp add: twin_snapshot_def violations_def host_violations_def violation_def
        metric_kinds_def twin_metrics_def initial_state_def initial_thresholds_def
        dict_getitem_def)
  have 5: "violations (dict_update (ALERT_THRESHOLDS initial_state) [(''cpu'', JNum 90)])
      twin_snapshot =
     [(''hostA'', ''CPU'', JNum (185 / 2), JNum 90), (''hostB'', ''CPU'', JNum (185 / 2), JNum 90)]"
    by (simp add: twin_snapshot_def violations_def host_violations_def violation_def
        metric_kinds_def twin_metrics_def initial_state_def initial_thresholds_def
        dict_update_def dict_getitem_def)
  from 1 2 3 4 5 show ?thesis by (intro conjI)
qed

section \<open>The handler of the latest metrics\<close>

text \<open>
  Claim C3, as the code has it. Every call of \<^verbatim>\<open>api_latest\<close> sends one request of its
  own to the metrics source and answers with the body of that response (status 200), or
  with \<^verbatim>\<open>{'error': str(e)}\<close> and status 500 when the request raises or the body is not
  JSON. The reply does not depend on anything the poller has stored, and the handler
  leaves the alerts and the thresholds as they are.
\<close>

theorem api_latest_fetches:
  "requests_sent (snd (api_latest net s)) = requests_sent s + 1 \<and>
   active_alerts (snd (api_latest net s)) = active_alerts s \<and>
   ALERT_THRESHOLDS (snd (api_latest net s)) = ALERT_THRESHOLDS s \<and>
   (\<forall>resp j. net (requests_sent s) = Inr resp \<and> body resp = Inr j \<longrightarrow>
      fst (api_latest net s) = \<lparr>status = 200, payload = j\<rparr>) \<and>
   (\<forall>e. net (requests_sent s) = Inl e \<longrightarrow>
      fst (api_latest net s) = \<lparr>status = 500, payload = JObj [(''error'', JStr (str_exn e))]\<rparr>) \<and>
   (\<forall>resp msg. net (requests_sent s) = Inr resp \<and> body resp = Inl msg \<longrightarrow>
      fst (api_latest net s) = \<lparr>status = 500, payload = JObj [(''error'', JStr msg)]\<rparr>) \<and>
   (\<forall>t. requests_sent t = requests_sent s \<longrightarrow> fst (api_latest net t) = fst (api_latest net s))"
  by (auto simp: api_latest_def requests_get_def response_json_def split: sum.splits option.splits)

theorem api_latest_fetches_witness:
  "net_host1 (requests_sent initial_state) =
     Inr \<lparr>status_code = 200, body = Inr (JObj host1_snapshot)\<rparr> \<and>
   api_latest net_host1 initial_state =
     (\<lparr>status = 200, payload = JObj host1_snapshot\<rparr>, initial_state\<lparr>requests_sent := 1\<rparr>) \<and>
   net_timeout (requests_sent initial_state) =
     Inl (RequestException ''Read timed out. (read timeout=5)'') \<and>
   fst (api_latest net_timeout initial_state) =
     \<lparr>status = 500, payload = JObj [(''error'', JStr ''Read timed out. (read timeout=5)'')]\<rparr> \<and>
   net_not_json (requests_sent initial_state) =
     Inr \<lparr>status_code = 200, body = Inl ''Expecting value: line 1 column 1 (char 0)''\<rparr> \<and>
   fst (api_latest net_not_json initial_state) =
     \<lparr>status = 500,
      payload = JObj [(''error'', JStr ''Expecting value: line 1 column 1 (char 0)'')]\<rparr> \<and>
   requests_sent state_with_alert = requests_sent initial_state \<and>
   fst (api_latest net_host1 state_with_alert) = fst (api_latest net_host1 initial_state)"
  using api_latest_fetches[of net_host1 initial_state] api_latest_fetches[of net_timeout initial_state]
    api_latest_fetches[of net_not_json initial_state]
  by (simp add: net_host1_def net_timeout_def net_not_json_def initial_state_def
      state_with_alert_def api_latest_def requests_get_def response_json_def)

text \<open>
  The poller fetches the snapshot of host1; the call of \<^verbatim>\<open>api_latest\<close> that follows
  sends a second request and answers with the snapshot of host2.
\<close>

theorem api_latest_counterexample:
  "net_host1_then_host2 (requests_sent initial_state) =
     Inr \<lparr>status_code = 200, body = Inr (JObj host1_snapshot)\<rparr> \<and>
   requests_sent (snd (check_alerts_cycle net_host1_then_host2 clock_morning initial_state)) = 1 \<and>
   payload (fst (api_latest net_host1_then_host2
     (snd (check_alerts_cycle net_host1_then_host2 clock_morning initial_state)))) =
     JObj host2_snapshot \<and>
   JObj host2_snapshot \<noteq> JObj host1_snapshot \<and>
   requests_sent (snd (api_latest net_host1_then_host2
     (snd (check_alerts_cycle net_host1_then_host2 clock_morning initial_state)))) = 2"
  unfolding cycle_host1_then_host2
  by (simp add: api_latest_def requests_get_def response_json_def
      net_host1_then_host2_def initial_state_def host1_snapshot_def host2_snapshot_def)

section \<open>The configuration handler\<close>

text \<open>
  Claim C6. A POST to \<^verbatim>\<open>/api/alerts/config\<close> merges the partial mapping into the
  threshold set: every key named in the partial afterwards holds the new value, every
  key not named holds the value it had, and a GET that follows returns the merged set.
  The alerts are not touched. The keys of the partial are pairwise different, as the keys
  of a Python dictionary are.
\<close>

theorem config_update_merges:
  assumes "distinct (map fst partial)"
  shows "(\<forall>(k, v)\<in>set partial.
            dict_getitem (ALERT_THRESHOLDS (snd (api_alerts_config (POST partial) s))) k = Inr v) \<and>
         (\<forall>k. k \<notin> fst ` set partial \<longrightarrow>
            dict_getitem (ALERT_THRESHOLDS (snd (api_alerts_config (POST partial) s))) k =
            dict_getitem (ALERT_THRESHOLDS s) k) \<and>
         payload (fst (api_alerts_config GET (snd (api_alerts_config (POST partial) s)))) =
           JObj (ALERT_THRESHOLDS (snd (api_alerts_config (POST partial) s))) \<and>
         active_alerts (snd (api_alerts_config (POST partial) s)) = active_alerts s"
  using assms
  by (auto simp: Let_def dict_getitem_update_new dict_getitem_update_old)

text \<open>
  The example of the claim: from the initial thresholds, updating only \<^verbatim>\<open>cpu\<close> to 90
  leaves \<^verbatim>\<open>memory\<close> at 85 and \<^verbatim>\<open>disk\<close> at 90, and the next GET shows \<^verbatim>\<open>cpu\<close> = 90.
\<close>

theorem config_update_merges_witness:
  "distinct (map fst [(''cpu'', JNum 90)]) \<and>
   ALERT_THRESHOLDS initial_state = [(''cpu'', JNum 80), (''memory'', JNum 85), (''disk'', JNum 90)] \<and>
   dict_getitem (ALERT_THRESHOLDS (snd (api_alerts_config (POST [(''cpu'', JNum 90)]) initial_state)))
     ''cpu'' = Inr (JNum 90) \<and>
   dict_getitem (ALERT_THRESHOLDS (snd (api_alerts_config (POST [(''cpu'', JNum 90)]) initial_state)))
     ''memory'' = Inr (JNum 85) \<and>
   dict_getitem (ALERT_THRESHOLDS (snd (api_alerts_config (POST [(''cpu'', JNum 90)]) initial_state)))
     ''disk'' = Inr (JNum 90) \<and>
   payload (fst (api_alerts_config GET
     (snd (api_alerts_config (POST [(''cpu'', JNum 90)]) initial_state)))) =
     JObj [(''cpu'', JNum 90), (''memory'', JNum 85), (''disk'', JNum 90)]"
  using config_update_merges[of "[(''cpu'', JNum 90)]" initial_state]
  by (simp add: Let_def initial_state_def initial_thresholds_def dict_update_def dict_getitem_def)

text \<open>
  Claim C7, as the code has it. The body of the reply to a POST is not the threshold set
  itself but the object \<^verbatim>\<open>{'status': 'ok', 'thresholds': ALERT_THRESHOLDS}\<close>, whose
  \<^verbatim>\<open>thresholds\<close> member is the complete set after the merge; the status is 200.
\<close>

theorem config_post_reply:
  "fst (api_alerts_config (POST partial) s) =
     \<lparr>status = 200,
      payload = JObj [(''status'', JStr ''ok''),
                      (''thresholds'', JObj (dict_update (ALERT_THRESHOLDS s) partial))]\<rparr> \<and>
   ALERT_THRESHOLDS (snd (api_alerts_config (POST partial) s)) =
     dict_update (ALERT_THRESHOLDS s) partial"
  by (simp add: Let_def)

text \<open>
  The body of the reply to the POST of \<^verbatim>\<open>{"cpu": 90}\<close> differs from the threshold set
  that results from it.
\<close>

theorem config_post_reply_counterexample:
  "payload (fst (api_alerts_config (POST [(''cpu'', JNum 90)]) initial_state)) \<noteq>
   JObj (ALERT_THRESHOLDS (snd (api_alerts_config (POST [(''cpu'', JNum 90)]) initial_state)))"
  by (simp add: Let_def initial_state_def initial_thresholds_def dict_update_def)

text \<open>
  Claim C8, as the code has it. The handler validates nothing: a value that is not a
  number (neither \<^verbatim>\<open>int\<close>, \<^verbatim>\<open>float\<close> nor \<^verbatim>\<open>bool\<close>) in the payload is merged into
  the threshold set like any other, and the reply has status 200.
\<close>

theorem config_update_unvalidated:
  assumes "distinct (map fst partial)" and "(k, v) \<in> set partial" and "py_num v = None"
  shows "status (fst (api_alerts_config (POST partial) s)) = 200 \<and>
         dict_getitem (ALERT_THRESHOLDS (snd (api_alerts_config (POST partial) s))) k = Inr v"
  using assms by (simp add: Let_def dict_getitem_update_new)

theorem config_update_unvalidated_witness:
  "distinct (map fst [(''memory'', JStr ''a lot'')]) \<and>
   (''memory'', JStr ''a lot'') \<in> set [(''memory'', JStr ''a lot'')] \<and>
   py_num (JStr ''a lot'') = None \<and>
   status (fst (api_alerts_config (POST [(''memory'', JStr ''a lot'')]) initial_state)) = 200 \<and>
   dict_getitem
     (ALERT_THRESHOLDS (snd (api_alerts_config (POST [(''memory'', JStr ''a lot'')]) initial_state)))
     ''memory'' = Inr (JStr ''a lot'')"
  using config_update_unvalidated[of "[(''memory'', JStr ''a lot'')]" "''memory''" "JStr ''a lot''"
      initial_state]
  by simp

text \<open>
  The POST of \<^verbatim>\<open>{"cpu": "high"}\<close> is answered with status 200 and \<^verbatim>\<open>'status': 'ok'\<close>,
  and the string is the \<^verbatim>\<open>cpu\<close> threshold afterwards.
\<close>

theorem config_update_unvalidated_counterexample:
  "py_num (JStr ''high'') = None \<and>
   api_alerts_config (POST [(''cpu'', JStr ''high'')]) initial_state =
     (\<lparr>status = 200,
       payload = JObj [(''status'', JStr ''ok''),
                       (''thresholds'', JObj [(''cpu'', JStr ''high''), (''memory'', JNum 85),
                                              (''disk'', JNum 90)])]\<rparr>,
      initial_state\<lparr>ALERT_THRESHOLDS :=
        [(''cpu'', JStr ''high''), (''memory'', JNum 85), (''disk'', JNum 90)]\<rparr>)"
  by (simp add: Let_def initial_state_def initial_thresholds_def dict_update_def)

end
